theory Spec2Isabelle
  imports Complex_Main
begin

section \<open>Shared data model (src/types/index.ts, src/db/schema.ts)\<close>

text \<open>
  Timestamps (\<open>Date.now()\<close>) are integers in milliseconds. Strings are byte strings;
  \<open>toUpperCase\<close> is modelled on ASCII letters. A number that comes from JSON (a price,
  a number of a request body) is a finite binary64 value, held as its real number.
\<close>

subsection \<open>JavaScript numbers\<close>

text \<open>
  A JavaScript number is an IEEE 754 binary64 value: a finite value, an infinity or
  \<open>NaN\<close>. A finite value is its real number (the model has one zero). \<open>fl\<close> is the
  rounding that ends every arithmetic operation and every conversion of a decimal string:
  to the nearest binary64 value, a tie to the even significand, with gradual underflow
  below \<open>2 powi (-1022)\<close> and overflow to an infinity. \<open>binade a\<close> is the exponent
  \<open>e\<close> with \<open>2 powi e \<le> a < 2 powi (e + 1)\<close>.
\<close>

datatype jsnum = Finite real | PosInfinity | NegInfinity | NaN

definition binade_measure :: "real \<Rightarrow> nat" where
  "binade_measure a = (if 1 \<le> a then nat \<lfloor>a\<rfloor> else nat \<lceil>1 / a\<rceil> + 1)"

function binade :: "real \<Rightarrow> int" where
  "binade a =
     (if a \<le> 0 then 0
      else if 2 \<le> a then binade (a / 2) + 1
      else if a < 1 then binade (a * 2) - 1
      else 0)"
  by pat_completeness auto
termination
proof (relation "measure binade_measure")
  show "wf (measure binade_measure)" by simp
next
  fix a :: real
  assume "\<not> a \<le> 0" and a2: "2 \<le> a"
  have 1: "\<lfloor>a / 2\<rfloor> < \<lfloor>a\<rfloor>" using a2 by linarith
  have 2: "0 \<le> \<lfloor>a / 2\<rfloor>" using a2 by simp
  have 3: "1 \<le> a / 2" "1 \<le> a" using a2 by simp_all
  have "nat \<lfloor>a / 2\<rfloor> < nat \<lfloor>a\<rfloor>" using 1 2 by linarith
  then have "binade_measure (a / 2) < binade_measure a"
    unfolding binade_measure_def using 3 by presburger
  then show "(a / 2, a) \<in> measure binade_measure" by simp
next
  fix a :: real
  assume "\<not> a \<le> 0" and "\<not> 2 \<le> a" and a1: "a < 1"
  then have a0: "0 < a" by simp
  have m: "binade_measure a = nat \<lceil>1 / a\<rceil> + 1"
    unfolding binade_measure_def using a1 by simp
  have "binade_measure (a * 2) < binade_measure a"
  proof (cases "1 \<le> a * 2")
    case True
    have f: "\<lfloor>a * 2\<rfloor> = 1" using True a1 by linarith
    have "1 < 1 / a" using a0 a1 by simp
    then have c: "2 \<le> \<lceil>1 / a\<rceil>" by linarith
    have "binade_measure (a * 2) = 1" unfolding binade_measure_def using True f by simp
    moreover have "2 \<le> nat \<lceil>1 / a\<rceil>" using c by linarith
    ultimately show ?thesis using m by linarith
  next
    case False
    have y: "2 < 1 / a" using a0 False by (simp add: field_simps)
    have "\<And>y::real. 2 < y \<Longrightarrow> \<lceil>y / 2\<rceil> < \<lceil>y\<rceil>" by linarith
    then have lt: "\<lceil>(1 / a) / 2\<rceil> < \<lceil>1 / a\<rceil>" using y by blast
    have pos: "0 < \<lceil>(1 / a) / 2\<rceil>" using a0 by simp
    have h: "1 / (a * 2) = (1 / a) / 2" by simp
    have "binade_measure (a * 2) = nat \<lceil>(1 / a) / 2\<rceil> + 1"
      unfolding binade_measure_def h using False by simp
    moreover have "nat \<lceil>(1 / a) / 2\<rceil> < nat \<lceil>1 / a\<rceil>" using lt pos by linarith
    ultimately show ?thesis using m by linarith
  qed
  then show "(a * 2, a) \<in> measure binade_measure" by simp
qed

declare binade.simps [simp del]

definition round_half_even :: "real \<Rightarrow> int" where
  "round_half_even x =
     (let f = \<lfloor>x\<rfloor>; r = x - of_int f
      in if r < 1 / 2 then f
         else if 1 / 2 < r then f + 1
         else if even f then f else f + 1)"

definition fl :: "real \<Rightarrow> jsnum" where
  "fl x =
     (if x = 0 then Finite 0
      else
        (let a = \<bar>x\<bar>;
             q = max (binade a) (- 1022) - 52;
             y = of_int (round_half_even (a / 2 powi q)) * 2 powi q
         in if 2 powi 1024 \<le> y then (if 0 < x then PosInfinity else NegInfinity)
            else Finite (if 0 < x then y else - y)))"


text \<open>
  The operators \<open>-\<close>, \<open>/\<close>, \<open>*\<close>, \<open><=\<close> and \<open><\<close> of JavaScript on numbers
  (\<open>a >= b\<close> is \<open>b <= a\<close>), on operands that are binary64 values. A comparison with
  \<open>NaN\<close> is false. A zero divisor is \<open>+0\<close>: the divisors of this program are
  conversions of decimal columns.
\<close>

fun js_minus :: "jsnum \<Rightarrow> jsnum \<Rightarrow> jsnum" where
  "js_minus (Finite x) (Finite y) = fl (x - y)"
| "js_minus (Finite x) PosInfinity = NegInfinity"
| "js_minus (Finite x) NegInfinity = PosInfinity"
| "js_minus (Finite x) NaN = NaN"
| "js_minus PosInfinity (Finite y) = PosInfinity"
| "js_minus PosInfinity PosInfinity = NaN"
| "js_minus PosInfinity NegInfinity = PosInfinity"
| "js_minus PosInfinity NaN = NaN"
| "js_minus NegInfinity (Finite y) = NegInfinity"
| "js_minus NegInfinity PosInfinity = NegInfinity"
| "js_minus NegInfinity NegInfinity = NaN"
| "js_minus NegInfinity NaN = NaN"
| "js_minus NaN b = NaN"

fun js_divide :: "jsnum \<Rightarrow> jsnum \<Rightarrow> jsnum" where
  "js_divide (Finite x) (Finite y) =
     (if y \<noteq> 0 then fl (x / y)
      else if 0 < x then PosInfinity
      else if x < 0 then NegInfinity
      else NaN)"
| "js_divide (Finite x) PosInfinity = Finite 0"
| "js_divide (Finite x) NegInfinity = Finite 0"
| "js_divide (Finite x) NaN = NaN"
| "js_divide PosInfinity (Finite y) = (if 0 \<le> y then PosInfinity else NegInfinity)"
| "js_divide PosInfinity PosInfinity = NaN"
| "js_divide PosInfinity NegInfinity = NaN"
| "js_divide PosInfinity NaN = NaN"
| "js_divide NegInfinity (Finite y) = (if 0 \<le> y then NegInfinity else PosInfinity)"
| "js_divide NegInfinity PosInfinity = NaN"
| "js_divide NegInfinity NegInfinity = NaN"
| "js_divide NegInfinity NaN = NaN"
| "js_divide NaN b = NaN"

fun js_times :: "jsnum \<Rightarrow> jsnum \<Rightarrow> jsnum" where
  "js_times (Finite x) (Finite y) = fl (x * y)"
| "js_times (Finite x) PosInfinity =
     (if 0 < x then PosInfinity else if x < 0 then NegInfinity else NaN)"
| "js_times (Finite x) NegInfinity =
     (if 0 < x then NegInfinity else if x < 0 then PosInfinity else NaN)"
| "js_times (Finite x) NaN = NaN"
| "js_times PosInfinity (Finite y) =
     (if 0 < y then PosInfinity else if y < 0 then NegInfinity else NaN)"
| "js_times PosInfinity PosInfinity = PosInfinity"
| "js_times PosInfinity NegInfinity = NegInfinity"
| "js_times PosInfinity NaN = NaN"
| "js_times NegInfinity (Finite y) =
     (if 0 < y then NegInfinity else if y < 0 then PosInfinity else NaN)"
| "js_times NegInfinity PosInfinity = NegInfinity"
| "js_times NegInfinity NegInfinity = PosInfinity"
| "js_times NegInfinity NaN = NaN"
| "js_times NaN b = NaN"

fun js_le :: "jsnum \<Rightarrow> jsnum \<Rightarrow> bool" where
  "js_le (Finite x) (Finite y) = (x \<le> y)"
| "js_le (Finite x) PosInfinity = True"
| "js_le (Finite x) NegInfinity = False"
| "js_le (Finite x) NaN = False"
| "js_le PosInfinity (Finite y) = False"
| "js_le PosInfinity PosInfinity = True"
| "js_le PosInfinity NegInfinity = False"
| "js_le PosInfinity NaN = False"
| "js_le NegInfinity (Finite y) = True"
| "js_le NegInfinity PosInfinity = True"
| "js_le NegInfinity NegInfinity = True"
| "js_le NegInfinity NaN = False"
| "js_le NaN b = False"

fun js_less :: "jsnum \<Rightarrow> jsnum \<Rightarrow> bool" where
  "js_less (Finite x) (Finite y) = (x < y)"
| "js_less (Finite x) PosInfinity = True"
| "js_less (Finite x) NegInfinity = False"
| "js_less (Finite x) NaN = False"
| "js_less PosInfinity b = False"
| "js_less NegInfinity (Finite y) = True"
| "js_less NegInfinity PosInfinity = True"
| "js_less NegInfinity NegInfinity = False"
| "js_less NegInfinity NaN = False"
| "js_less NaN b = False"


record CryptoPrice =
  symbol :: string
  price :: real
  change24h :: real
  changePercent24h :: real
  volume24h :: real
  marketCap :: real
  lastUpdated :: string

datatype AlertCondition = above | below | percent_change

text \<open>The API shape of an alert (\<open>PriceAlert\<close> of src/types/index.ts).\<close>

record PriceAlertType =
  api_id :: string
  api_userId :: string
  api_symbol :: string
  api_condition :: AlertCondition
  api_targetPrice :: jsnum
  api_percentChange :: "jsnum option"
  api_isTriggered :: bool
  api_isActive :: bool
  api_createdAt :: int
  api_triggeredAt :: "int option"

definition upper_char :: "char \<Rightarrow> char" where
  "upper_char c =
     (case map_of (zip ''abcdefghijklmnopqrstuvwxyz'' ''ABCDEFGHIJKLMNOPQRSTUVWXYZ'') c of
        Some u \<Rightarrow> u
      | None \<Rightarrow> c)"

definition toUpperCase :: "string \<Rightarrow> string" where
  "toUpperCase s = map upper_char s"

section \<open>Subscription registry (src/websocket/handlers/priceHandler.ts)\<close>

text \<open>
  A \<open>WebSocket\<close> object is identified by a number. A JavaScript \<open>Set\<close> keeps
  insertion order and holds no duplicates: it is a list, with \<open>set_add\<close> and
  \<open>set_delete\<close> as its \<open>add\<close> and \<open>delete\<close>.
\<close>

type_synonym socket = nat

datatype ready_state = CONNECTING | OPEN | CLOSING | CLOSED

definition set_add :: "'a \<Rightarrow> 'a list \<Rightarrow> 'a list" where
  "set_add x xs = (if x \<in> set xs then xs else xs @ [x])"

definition set_delete :: "'a \<Rightarrow> 'a list \<Rightarrow> 'a list" where
  "set_delete x xs = removeAll x xs"

record ClientConnection =
  socket :: socket
  subscribedSymbols :: "string list"
  connUserId :: "string option"
  lastPing :: int

datatype WSServerMessage =
    Subscribed "string list"
  | Unsubscribed "string list"
  | PriceUpdate CryptoPrice
  | AlertTriggered PriceAlertType
  | ErrorMsg string "string option"
  | Pong

text \<open>
  The module's global state: the two maps \<open>connections\<close> and \<open>symbolSubscribers\<close>.
  The transport is outside the module; what the handlers see of it is each socket's
  \<open>readyState\<close>, and what they do to it is \<open>socket.send\<close>, recorded in \<open>outbox\<close>
  in the order of the calls.
\<close>

record registry =
  connections :: "socket \<rightharpoonup> ClientConnection"
  symbolSubscribers :: "string \<rightharpoonup> socket list"
  readyState :: "socket \<Rightarrow> ready_state"
  outbox :: "(socket \<times> WSServerMessage) list"

definition empty_registry :: "registry" where
  "empty_registry =
     \<lparr>connections = Map.empty, symbolSubscribers = Map.empty,
      readyState = (\<lambda>_. CONNECTING), outbox = []\<rparr>"

definition sendToClient :: "socket \<Rightarrow> WSServerMessage \<Rightarrow> registry \<Rightarrow> registry" where
  "sendToClient sock message st =
     (if readyState st sock = OPEN
      then st\<lparr>outbox := outbox st @ [(sock, message)]\<rparr>
      else st)"

definition sendError :: "socket \<Rightarrow> string \<Rightarrow> string option \<Rightarrow> registry \<Rightarrow> registry" where
  "sendError sock message code st = sendToClient sock (ErrorMsg message code) st"

definition handleConnection :: "socket \<Rightarrow> string option \<Rightarrow> int \<Rightarrow> registry \<Rightarrow> registry" where
  "handleConnection sock uid now st =
     sendToClient sock (Subscribed [])
       (st\<lparr>connections := (connections st)(sock \<mapsto>
            \<lparr>socket = sock, subscribedSymbols = [], connUserId = uid, lastPing = now\<rparr>)\<rparr>)"

text \<open>
  The body shared by the loops of \<open>handleDisconnection\<close> and \<open>handleUnsubscribe\<close>:
  delete the socket from the symbol's subscriber set, and delete the set when it is empty.
\<close>

definition remove_subscriber ::
  "socket \<Rightarrow> string \<Rightarrow> (string \<rightharpoonup> socket list) \<Rightarrow> (string \<rightharpoonup> socket list)" where
  "remove_subscriber sock symb subs =
     (case subs symb of
        None \<Rightarrow> subs
      | Some subscribers \<Rightarrow>
          (let subscribers' = set_delete sock subscribers
           in if length subscribers' = 0 then subs(symb := None)
              else subs(symb \<mapsto> subscribers')))"

definition handleDisconnection :: "socket \<Rightarrow> registry \<Rightarrow> registry" where
  "handleDisconnection sock st =
     (case connections st sock of
        None \<Rightarrow> st
      | Some connection \<Rightarrow>
          st\<lparr>symbolSubscribers :=
                fold (remove_subscriber sock) (subscribedSymbols connection) (symbolSubscribers st),
             connections := (connections st)(sock := None)\<rparr>)"

text \<open>Supported symbols: the keys of \<open>CRYPTO_MAP\<close> (price service), in order.\<close>

definition getSupportedSymbols :: "string list" where
  "getSupportedSymbols =
     [''BTC'', ''ETH'', ''SOL'', ''AVAX'', ''MATIC'', ''DOT'', ''ADA'', ''XRP'',
      ''DOGE'', ''LINK'', ''UNI'', ''ATOM'', ''LTC'', ''BCH'', ''NEAR'']"

definition isSymbolSupported :: "string \<Rightarrow> bool" where
  "isSymbolSupported s = (toUpperCase s \<in> set getSupportedSymbols)"

text \<open>The first loop of \<open>handleSubscribe\<close>: valid symbols upper-cased, invalid ones as given.\<close>

fun classify_symbols :: "string list \<Rightarrow> string list \<times> string list" where
  "classify_symbols [] = ([], [])"
| "classify_symbols (s # rest) =
     (let upperSymbol = toUpperCase s; (valid, invalid) = classify_symbols rest
      in if upperSymbol \<in> set getSupportedSymbols then (upperSymbol # valid, invalid)
         else (valid, s # invalid))"

fun join_comma :: "string list \<Rightarrow> string" where
  "join_comma [] = []"
| "join_comma [s] = s"
| "join_comma (s # t # rest) = s @ '', '' @ join_comma (t # rest)"

text \<open>
  The connection object that \<open>handleMessage\<close> hands to the two handlers is the one
  stored in \<open>connections\<close> under the socket, and the handlers mutate it in place before
  their first \<open>await\<close>: in the model they update the map entry of the socket. The
  only code after an \<open>await\<close> is the loop of \<open>handleSubscribe\<close> that sends the
  current prices; it changes neither map, so each handler is one step of the model.
\<close>

definition update_connection ::
  "socket \<Rightarrow> (ClientConnection \<Rightarrow> ClientConnection) \<Rightarrow> registry \<Rightarrow> registry" where
  "update_connection sock f st =
     (case connections st sock of
        None \<Rightarrow> st
      | Some connection \<Rightarrow> st\<lparr>connections := (connections st)(sock \<mapsto> f connection)\<rparr>)"

definition add_subscriber ::
  "socket \<Rightarrow> string \<Rightarrow> (string \<rightharpoonup> socket list) \<Rightarrow> (string \<rightharpoonup> socket list)" where
  "add_subscriber sock symb subs =
     (case subs symb of
        None \<Rightarrow> subs(symb \<mapsto> set_add sock [])
      | Some subscribers \<Rightarrow> subs(symb \<mapsto> set_add sock subscribers))"

definition subscribe_symbol :: "socket \<Rightarrow> string \<Rightarrow> registry \<Rightarrow> registry" where
  "subscribe_symbol sock symb st =
     (update_connection sock
        (\<lambda>c. c\<lparr>subscribedSymbols := set_add symb (subscribedSymbols c)\<rparr>) st)
     \<lparr>symbolSubscribers := add_subscriber sock symb (symbolSubscribers st)\<rparr>"

text \<open>
  The last loop of \<open>handleSubscribe\<close> sends the current price of each valid symbol.
  \<open>getPrice\<close> is the price service: it returns a price, nothing (\<open>Inr None\<close>), or
  throws (\<open>Inl\<close>), which ends the loop; the result says whether it threw.
\<close>

fun send_current_prices ::
  "(string \<Rightarrow> unit + CryptoPrice option) \<Rightarrow> socket \<Rightarrow> string list \<Rightarrow> registry \<Rightarrow> registry \<times> bool" where
  "send_current_prices getPrice sock [] st = (st, False)"
| "send_current_prices getPrice sock (symb # rest) st =
     (case getPrice symb of
        Inl _ \<Rightarrow> (st, True)
      | Inr None \<Rightarrow> send_current_prices getPrice sock rest st
      | Inr (Some p) \<Rightarrow> send_current_prices getPrice sock rest (sendToClient sock (PriceUpdate p) st))"

definition handleSubscribe ::
  "(string \<Rightarrow> unit + CryptoPrice option) \<Rightarrow> socket \<Rightarrow> string list \<Rightarrow> registry \<Rightarrow> registry \<times> bool" where
  "handleSubscribe getPrice sock symbols st =
     (let (validSymbols, invalidSymbols) = classify_symbols symbols;
          st1 = (if length invalidSymbols > 0
                 then sendError sock (''Unsupported symbols: '' @ join_comma invalidSymbols)
                        (Some ''INVALID_SYMBOLS'') st
                 else st);
          st2 = fold (subscribe_symbol sock) validSymbols st1;
          st3 = sendToClient sock
                  (Subscribed (case connections st2 sock of
                                 None \<Rightarrow> [] | Some c \<Rightarrow> subscribedSymbols c)) st2
      in send_current_prices getPrice sock validSymbols st3)"

definition unsubscribe_symbol :: "socket \<Rightarrow> string \<Rightarrow> registry \<Rightarrow> registry" where
  "unsubscribe_symbol sock s st =
     (let upperSymbol = toUpperCase s
      in (update_connection sock
            (\<lambda>c. c\<lparr>subscribedSymbols := set_delete upperSymbol (subscribedSymbols c)\<rparr>) st)
         \<lparr>symbolSubscribers := remove_subscriber sock upperSymbol (symbolSubscribers st)\<rparr>)"

definition handleUnsubscribe :: "socket \<Rightarrow> string list \<Rightarrow> registry \<Rightarrow> registry" where
  "handleUnsubscribe sock symbols st =
     sendToClient sock (Unsubscribed (map toUpperCase symbols))
       (fold (unsubscribe_symbol sock) symbols st)"

text \<open>
  An incoming text frame, as \<open>JSON.parse\<close> and the discriminated union see it: not JSON,
  a subscribe or unsubscribe object with its array of strings, or anything else. The
  schema accepts symbols of 1 to 10 characters and upper-cases them.
\<close>

datatype raw_message =
    NotJson
  | JsonSubscribe "string list"
  | JsonUnsubscribe "string list"
  | JsonOther

definition symbols_schema :: "string list \<Rightarrow> string list option" where
  "symbols_schema symbols =
     (if list_all (\<lambda>s. 1 \<le> length s \<and> length s \<le> 10) symbols
      then Some (map toUpperCase symbols) else None)"

definition handleMessage ::
  "(string \<Rightarrow> unit + CryptoPrice option) \<Rightarrow> socket \<Rightarrow> raw_message \<Rightarrow> int \<Rightarrow> registry \<Rightarrow> registry" where
  "handleMessage getPrice sock data now st =
     (case connections st sock of
        None \<Rightarrow> sendError sock ''Connection not found'' (Some ''CONNECTION_ERROR'') st
      | Some _ \<Rightarrow>
          (let st1 = update_connection sock (\<lambda>c. c\<lparr>lastPing := now\<rparr>) st
           in case data of
                NotJson \<Rightarrow> sendError sock ''Failed to parse message'' (Some ''PARSE_ERROR'') st1
              | JsonOther \<Rightarrow> sendError sock ''Invalid message format'' (Some ''INVALID_MESSAGE'') st1
              | JsonSubscribe symbols \<Rightarrow>
                  (case symbols_schema symbols of
                     None \<Rightarrow> sendError sock ''Invalid message format'' (Some ''INVALID_MESSAGE'') st1
                   | Some syms \<Rightarrow>
                       (case handleSubscribe getPrice sock syms st1 of
                          (st2, threw) \<Rightarrow>
                            if threw
                            then sendError sock ''Failed to parse message'' (Some ''PARSE_ERROR'') st2
                            else st2))
              | JsonUnsubscribe symbols \<Rightarrow>
                  (case symbols_schema symbols of
                     None \<Rightarrow> sendError sock ''Invalid message format'' (Some ''INVALID_MESSAGE'') st1
                   | Some syms \<Rightarrow> handleUnsubscribe sock syms st1)))"

definition handlePing :: "socket \<Rightarrow> int \<Rightarrow> registry \<Rightarrow> registry" where
  "handlePing sock now st = update_connection sock (\<lambda>c. c\<lparr>lastPing := now\<rparr>) st"

fun send_all :: "WSServerMessage \<Rightarrow> socket list \<Rightarrow> registry \<Rightarrow> registry" where
  "send_all message [] st = st"
| "send_all message (sock # rest) st = send_all message rest (sendToClient sock message st)"

definition broadcastPriceUpdate :: "CryptoPrice \<Rightarrow> registry \<Rightarrow> registry" where
  "broadcastPriceUpdate p st =
     (case symbolSubscribers st (symbol p) of
        None \<Rightarrow> st
      | Some subscribers \<Rightarrow>
          if length subscribers > 0 then send_all (PriceUpdate p) subscribers st else st)"

subsection \<open>The WebSocket route (src/websocket/index.ts)\<close>

text \<open>
  What the route and the transport do to the registry, one event at a time: a new socket
  is opened and registered; a text frame arrives (\<open>ping\<close> or a message); the socket's
  \<open>close\<close> or \<open>error\<close> event fires; the transport changes a socket's ready state.
\<close>

datatype ws_event =
    Open socket "string option"
  | Frame socket raw_message
  | PingFrame socket
  | CloseEvent socket
  | ErrorEvent socket
  | Transport socket ready_state

definition ws_step ::
  "(string \<Rightarrow> unit + CryptoPrice option) \<Rightarrow> int \<times> ws_event \<Rightarrow> registry \<Rightarrow> registry" where
  "ws_step getPrice ev st =
     (case ev of
        (now, Open sock uid) \<Rightarrow>
          handleConnection sock uid now (st\<lparr>readyState := (readyState st)(sock := OPEN)\<rparr>)
      | (now, Frame sock data) \<Rightarrow> handleMessage getPrice sock data now st
      | (now, PingFrame sock) \<Rightarrow>
          (let st1 = handlePing sock now st in st1\<lparr>outbox := outbox st1 @ [(sock, Pong)]\<rparr>)
      | (now, CloseEvent sock) \<Rightarrow>
          handleDisconnection sock (st\<lparr>readyState := (readyState st)(sock := CLOSED)\<rparr>)
      | (now, ErrorEvent sock) \<Rightarrow> handleDisconnection sock st
      | (now, Transport sock rs) \<Rightarrow> st\<lparr>readyState := (readyState st)(sock := rs)\<rparr>)"

definition ws_run ::
  "(string \<Rightarrow> unit + CryptoPrice option) \<Rightarrow> (int \<times> ws_event) list \<Rightarrow> registry \<Rightarrow> registry" where
  "ws_run getPrice evs st = fold (ws_step getPrice) evs st"

text \<open>
  The route calls \<open>handleConnection\<close> once for each new socket object: in a trace, a
  socket is opened only while it is not registered.
\<close>

fun fresh_opens ::
  "(string \<Rightarrow> unit + CryptoPrice option) \<Rightarrow> (int \<times> ws_event) list \<Rightarrow> registry \<Rightarrow> bool" where
  "fresh_opens getPrice [] st = True"
| "fresh_opens getPrice (ev # evs) st =
     ((case snd ev of Open sock _ \<Rightarrow> connections st sock = None | _ \<Rightarrow> True)
      \<and> fresh_opens getPrice evs (ws_step getPrice ev st))"

text \<open>
  The two views of the subscription relation, and their agreement: a socket is in
  \<open>symbolSubscribers[s]\<close> exactly when \<open>s\<close> is in its connection's \<open>subscribedSymbols\<close>.
\<close>

definition subs_rel :: "(string \<rightharpoonup> socket list) \<Rightarrow> (socket \<times> string) set" where
  "subs_rel m = {(sock, symb). \<exists>subscribers. m symb = Some subscribers \<and> sock \<in> set subscribers}"

definition index_rel :: "registry \<Rightarrow> (socket \<times> string) set" where
  "index_rel st = subs_rel (symbolSubscribers st)"

definition conn_rel :: "registry \<Rightarrow> (socket \<times> string) set" where
  "conn_rel st =
     {(sock, symb). \<exists>c. connections st sock = Some c \<and> symb \<in> set (subscribedSymbols c)}"

definition consistent :: "registry \<Rightarrow> bool" where
  "consistent st = (index_rel st = conn_rel st)"

text \<open>
  \<open>WS_MAX_CONNECTIONS\<close> is declared in the environment schema (src/config/env.ts) with
  the default 1000. No handler reads it.
\<close>

definition WS_MAX_CONNECTIONS :: nat where
  "WS_MAX_CONNECTIONS = 1000"

definition open_sockets :: "nat \<Rightarrow> (int \<times> ws_event) list" where
  "open_sockets n = map (\<lambda>i. (int i, Open i None)) [0..<n]"

definition no_price :: "string \<Rightarrow> unit + CryptoPrice option" where
  "no_price s = Inr None"

definition btc_snapshot :: "real \<Rightarrow> CryptoPrice" where
  "btc_snapshot x =
     \<lparr>symbol = ''BTC'', price = x, change24h = 0, changePercent24h = 0,
      volume24h = 0, marketCap = 0, lastUpdated = ''2024-01-01T00:00:00.000Z''\<rparr>"

definition eth_snapshot :: "real \<Rightarrow> CryptoPrice" where
  "eth_snapshot x =
     \<lparr>symbol = ''ETH'', price = x, change24h = 0, changePercent24h = 0,
      volume24h = 0, marketCap = 0, lastUpdated = ''2024-01-01T00:00:00.000Z''\<rparr>"

definition demo_trace :: "(int \<times> ws_event) list" where
  "demo_trace =
     [(0, Open 1 None),
      (1, Frame 1 (JsonSubscribe [''btc'', ''eth'', ''zzz''])),
      (2, Open 2 (Some ''u'')),
      (3, Frame 2 (JsonSubscribe [''BTC''])),
      (4, Frame 1 (JsonUnsubscribe [''eth''])),
      (5, CloseEvent 1)]"

definition closed_subscriber_trace :: "(int \<times> ws_event) list" where
  "closed_subscriber_trace =
     [(0, Open 1 None),
      (1, Frame 1 (JsonSubscribe [''BTC''])),
      (2, Open 2 None),
      (3, Frame 2 (JsonSubscribe [''BTC''])),
      (4, Transport 1 CLOSING),
      (5, Transport 2 CLOSED)]"

section \<open>Alert service (src/services/alertService.ts)\<close>

text \<open>
  A row of \<open>price_alerts\<close>. The decimal columns arrive as decimal strings or
  \<open>null\<close>; a row holds their decimal value or \<open>None\<close>. A decimal string is never
  empty, so it is truthy in JavaScript whatever its value: the guards
  \<open>alert.targetPrice &&\<close> and \<open>alert.basePrice && alert.percentChange\<close> test the
  column for \<open>null\<close> only.
\<close>

record PriceAlertRow =
  alertId :: string
  userId :: string
  alertSymbol :: string
  condition :: AlertCondition
  targetPrice :: "real option"
  percentChange :: "real option"
  basePrice :: "real option"
  isTriggered :: bool
  isActive :: bool
  createdAt :: int
  triggeredAt :: "int option"

definition toApiAlert :: "PriceAlertRow \<Rightarrow> PriceAlertType" where
  "toApiAlert dbAlert =
     \<lparr>api_id = alertId dbAlert,
      api_userId = userId dbAlert,
      api_symbol = alertSymbol dbAlert,
      api_condition = condition dbAlert,
      api_targetPrice = (case targetPrice dbAlert of None \<Rightarrow> Finite 0 | Some t \<Rightarrow> fl t),
      api_percentChange = (case percentChange dbAlert of None \<Rightarrow> None | Some c \<Rightarrow> Some (fl c)),
      api_isTriggered = isTriggered dbAlert,
      api_isActive = isActive dbAlert,
      api_createdAt = createdAt dbAlert,
      api_triggeredAt = triggeredAt dbAlert\<rparr>"

text \<open>
  \<open>((price.price - basePrice) / basePrice) * 100\<close>, where \<open>basePrice\<close> is already the
  number \<open>Number(alert.basePrice)\<close>.
\<close>

definition actual_percent :: "real \<Rightarrow> jsnum \<Rightarrow> jsnum" where
  "actual_percent current base =
     js_times (js_divide (js_minus (Finite current) base) base) (Finite 100)"

text \<open>
  The \<open>switch\<close> of \<open>checkAlertsForPrice\<close>: the value of \<open>shouldTrigger\<close> for one alert.
  \<open>Number\<close> of a column's decimal string is \<open>fl\<close> of its value.
\<close>

definition shouldTrigger :: "PriceAlertRow \<Rightarrow> CryptoPrice \<Rightarrow> bool" where
  "shouldTrigger alert p =
     (case condition alert of
        above \<Rightarrow>
          (case targetPrice alert of
             None \<Rightarrow> False
           | Some t \<Rightarrow> js_le (fl t) (Finite (price p)))
      | below \<Rightarrow>
          (case targetPrice alert of
             None \<Rightarrow> False
           | Some t \<Rightarrow> js_le (Finite (price p)) (fl t))
      | percent_change \<Rightarrow>
          (case basePrice alert of
             None \<Rightarrow> False
           | Some b \<Rightarrow>
               (case percentChange alert of
                  None \<Rightarrow> False
                | Some c \<Rightarrow>
                    (let basePrice = fl b;
                         targetPercent = fl c;
                         actualPercent = actual_percent (price p) basePrice
                     in if js_less (Finite 0) targetPercent \<and> js_le targetPercent actualPercent
                        then True
                        else if js_less targetPercent (Finite 0)
                                \<and> js_le actualPercent targetPercent
                        then True
                        else False))))"

text \<open>
  The table and what the service does to the outside, in order: each \<open>db.update\<close> that
  succeeded (\<open>Persisted\<close>, with the ids and the timestamp written) and each call of
  \<open>notifyAlertTriggered\<close> (\<open>Announced\<close>).
\<close>

datatype alert_event =
    Persisted "string list" int
  | Announced PriceAlertType CryptoPrice

record alert_state =
  priceAlerts :: "PriceAlertRow list"
  events :: "alert_event list"

text \<open>
  A database call may reject. \<open>selectFails\<close> (by symbol), \<open>updateFails\<close> (by the
  ids to update), \<open>insertFails\<close> and \<open>countFails\<close> say which calls do; a call that
  rejects changes nothing (one SQL statement).
\<close>

datatype db_error = DbError | PriceSourceError

record db_faults =
  selectFails :: "string \<Rightarrow> bool"
  updateFails :: "string list \<Rightarrow> bool"
  insertFails :: bool
  countFails :: bool

definition healthy :: db_faults where
  "healthy =
     \<lparr>selectFails = (\<lambda>_. False), updateFails = (\<lambda>_. False), insertFails = False,
      countFails = False\<rparr>"

definition select_active :: "string \<Rightarrow> PriceAlertRow list \<Rightarrow> PriceAlertRow list" where
  "select_active s rows =
     filter (\<lambda>a. alertSymbol a = s \<and> isActive a = True \<and> isTriggered a = False) rows"

definition alerts_to_trigger :: "CryptoPrice \<Rightarrow> PriceAlertRow list \<Rightarrow> PriceAlertRow list" where
  "alerts_to_trigger p rows = filter (\<lambda>alert. shouldTrigger alert p) (select_active (symbol p) rows)"

definition mark_triggered :: "string list \<Rightarrow> int \<Rightarrow> PriceAlertRow list \<Rightarrow> PriceAlertRow list" where
  "mark_triggered ids now rows =
     map (\<lambda>a. if alertId a \<in> set ids then a\<lparr>isTriggered := True, triggeredAt := Some now\<rparr> else a) rows"

definition checkAlertsForPrice ::
  "db_faults \<Rightarrow> int \<Rightarrow> CryptoPrice \<Rightarrow> alert_state \<Rightarrow> alert_state \<times> (db_error + PriceAlertType list)" where
  "checkAlertsForPrice faults now p st =
     (if selectFails faults (symbol p) then (st, Inl DbError)
      else
        (let toTrigger = alerts_to_trigger p (priceAlerts st);
             alertIdsToTrigger = map alertId toTrigger;
             triggeredAlerts = map toApiAlert toTrigger
         in if length alertIdsToTrigger > 0
            then (if updateFails faults alertIdsToTrigger then (st, Inl DbError)
                  else (st\<lparr>priceAlerts := mark_triggered alertIdsToTrigger now (priceAlerts st),
                           events := events st @ [Persisted alertIdsToTrigger now]
                                     @ map (\<lambda>alert. Announced alert p) triggeredAlerts\<rparr>,
                        Inr triggeredAlerts))
            else (st, Inr triggeredAlerts)))"

text \<open>
  \<open>checkAllAlerts\<close>: one call of \<open>checkAlertsForPrice\<close> for each snapshot, in order; a
  rejection ends the loop. Each snapshot comes with the time \<open>new Date()\<close> gives when
  its update runs.
\<close>

fun checkAllAlerts ::
  "db_faults \<Rightarrow> (int \<times> CryptoPrice) list \<Rightarrow> alert_state \<Rightarrow> alert_state \<times> (db_error + PriceAlertType list)" where
  "checkAllAlerts faults [] st = (st, Inr [])"
| "checkAllAlerts faults ((now, p) # rest) st =
     (case checkAlertsForPrice faults now p st of
        (st1, Inl e) \<Rightarrow> (st1, Inl e)
      | (st1, Inr triggered) \<Rightarrow>
          (case checkAllAlerts faults rest st1 of
             (st2, Inl e) \<Rightarrow> (st2, Inl e)
           | (st2, Inr later) \<Rightarrow> (st2, Inr (triggered @ later))))"

text \<open>
  A column \<open>decimal(precision, scale)\<close> of PostgreSQL rounds what it is given to
  \<open>scale\<close> decimal places, a tie away from zero, and rejects a value whose rounding
  is not below \<open>10 ^ (precision - scale)\<close> in absolute value. \<open>target_price\<close> and
  \<open>base_price\<close> are \<open>decimal(20, 8)\<close>, \<open>percent_change\<close> is \<open>decimal(10, 4)\<close>.
\<close>

definition pg_round :: "nat \<Rightarrow> real \<Rightarrow> real" where
  "pg_round scale x =
     (if 0 \<le> x then of_int \<lfloor>x * 10 ^ scale + 1 / 2\<rfloor> / 10 ^ scale
      else - (of_int \<lfloor>- x * 10 ^ scale + 1 / 2\<rfloor> / 10 ^ scale))"

definition pg_numeric :: "nat \<Rightarrow> nat \<Rightarrow> real \<Rightarrow> real option" where
  "pg_numeric precision scale x =
     (let r = pg_round scale x
      in if \<bar>r\<bar> < 10 ^ (precision - scale) then Some r else None)"

text \<open>
  What a column holds for \<open>value?.toString() ?? null\<close>: \<open>null\<close> for a missing number,
  else the printed number as the column rounds it; the outer \<open>None\<close> is the rejection.
  \<open>numberToString x\<close> is the value of the decimal string that \<open>toString\<close> prints for
  the number \<open>x\<close>; it is a parameter of the model.
\<close>

definition numeric_column ::
  "(real \<Rightarrow> real) \<Rightarrow> nat \<Rightarrow> nat \<Rightarrow> real option \<Rightarrow> real option option" where
  "numeric_column numberToString precision scale v =
     (case v of
        None \<Rightarrow> Some None
      | Some x \<Rightarrow>
          (case pg_numeric precision scale (numberToString x) of
             None \<Rightarrow> None
           | Some d \<Rightarrow> Some (Some d)))"

text \<open>
  \<open>createAlert\<close>. \<open>currentPrice\<close> is what \<open>getPrice(symbol)\<close> gave (a price, nothing,
  or a rejection); \<open>newId\<close> and \<open>now\<close> are the id and creation time the database gives
  the row. The insert rejects when the database fails or a number does not fit its
  column; the row it returns holds the numbers as the columns rounded them.
\<close>

definition createAlert ::
  "db_faults \<Rightarrow> (real \<Rightarrow> real) \<Rightarrow> (unit + CryptoPrice option) \<Rightarrow> string \<Rightarrow> int \<Rightarrow>
   string \<Rightarrow> string \<Rightarrow> AlertCondition \<Rightarrow> real option \<Rightarrow> real option \<Rightarrow>
   alert_state \<Rightarrow> alert_state \<times> (db_error + PriceAlertType)" where
  "createAlert faults numberToString currentPrice newId now uid s cond tp pc st =
     (case currentPrice of
        Inl _ \<Rightarrow> (st, Inl PriceSourceError)
      | Inr cp \<Rightarrow>
          (let base = (case cp of None \<Rightarrow> None | Some q \<Rightarrow> Some (price q))
           in case numeric_column numberToString 20 8 tp of
                None \<Rightarrow> (st, Inl DbError)
              | Some storedTarget \<Rightarrow>
                  (case numeric_column numberToString 10 4 pc of
                     None \<Rightarrow> (st, Inl DbError)
                   | Some storedPercent \<Rightarrow>
                       (case numeric_column numberToString 20 8 base of
                          None \<Rightarrow> (st, Inl DbError)
                        | Some storedBase \<Rightarrow>
                            (let created =
                               \<lparr>alertId = newId, userId = uid, alertSymbol = toUpperCase s,
                                condition = cond, targetPrice = storedTarget,
                                percentChange = storedPercent, basePrice = storedBase,
                                isTriggered = False, isActive = True, createdAt = now,
                                triggeredAt = None\<rparr>
                             in if insertFails faults then (st, Inl DbError)
                                else (st\<lparr>priceAlerts := priceAlerts st @ [created]\<rparr>,
                                      Inr (toApiAlert created)))))))"

definition getAlertCount :: "string \<Rightarrow> alert_state \<Rightarrow> nat" where
  "getAlertCount uid st =
     length (filter (\<lambda>a. userId a = uid \<and> isActive a = True) (priceAlerts st))"

definition getMaxAlerts :: "string \<Rightarrow> nat" where
  "getMaxAlerts tier =
     (if tier = ''free'' then 5 else if tier = ''pro'' then 50
      else if tier = ''enterprise'' then 500 else 5)"

subsection \<open>The creation route (src/api/routes/alerts.ts)\<close>

text \<open>
  The request body as JSON gives it: the condition is a string until the schema's enum
  accepts it; the two numbers are optional.
\<close>

record alert_body =
  body_symbol :: string
  body_condition :: string
  body_targetPrice :: "real option"
  body_percentChange :: "real option"

record CreateAlert =
  ca_symbol :: string
  ca_condition :: AlertCondition
  ca_targetPrice :: "real option"
  ca_percentChange :: "real option"

definition parse_condition :: "string \<Rightarrow> AlertCondition option" where
  "parse_condition c =
     (if c = ''above'' then Some above
      else if c = ''below'' then Some below
      else if c = ''percent_change'' then Some percent_change
      else None)"

definition CreateAlertSchema :: "alert_body \<Rightarrow> CreateAlert option" where
  "CreateAlertSchema b =
     (if \<not> (1 \<le> length (body_symbol b) \<and> length (body_symbol b) \<le> 10) then None
      else case parse_condition (body_condition b) of
             None \<Rightarrow> None
           | Some cond \<Rightarrow>
               if \<not> (case body_targetPrice b of None \<Rightarrow> True | Some t \<Rightarrow> t > 0) then None
               else if (if cond = percent_change then body_percentChange b \<noteq> None
                        else body_targetPrice b \<noteq> None)
               then Some \<lparr>ca_symbol = toUpperCase (body_symbol b), ca_condition = cond,
                          ca_targetPrice = body_targetPrice b,
                          ca_percentChange = body_percentChange b\<rparr>
               else None)"

datatype alert_reply =
    Created PriceAlertType
  | Unauthorized
  | ValidationError
  | InvalidSymbol
  | AlertLimitReached
  | InternalError

text \<open>
  The handler of \<open>POST /alerts\<close>: the authenticated user (id and tier, if any), the
  body, and the answer; the table changes only when the answer is \<open>Created\<close>.
\<close>

definition postAlert ::
  "db_faults \<Rightarrow> (real \<Rightarrow> real) \<Rightarrow> (unit + CryptoPrice option) \<Rightarrow> string \<Rightarrow> int \<Rightarrow>
   (string \<times> string) option \<Rightarrow> alert_body \<Rightarrow> alert_state \<Rightarrow> alert_state \<times> alert_reply" where
  "postAlert faults numberToString currentPrice newId now user b st =
     (case user of
        None \<Rightarrow> (st, Unauthorized)
      | Some (uid, tier) \<Rightarrow>
          (case CreateAlertSchema b of
             None \<Rightarrow> (st, ValidationError)
           | Some body \<Rightarrow>
               if \<not> isSymbolSupported (ca_symbol body) then (st, InvalidSymbol)
               else if countFails faults then (st, InternalError)
               else if getAlertCount uid st \<ge> getMaxAlerts tier then (st, AlertLimitReached)
               else (case createAlert faults numberToString currentPrice newId now uid
                            (ca_symbol body) (ca_condition body) (ca_targetPrice body)
                            (ca_percentChange body) st of
                       (st1, Inl _) \<Rightarrow> (st1, InternalError)
                     | (st1, Inr alert) \<Rightarrow> (st1, Created alert))))"

text \<open>The ids an event mentions.\<close>

fun event_ids :: "alert_event \<Rightarrow> string list" where
  "event_ids (Persisted ids now) = ids"
| "event_ids (Announced alert p) = [api_id alert]"

section \<open>Rate limiter (src/api/middleware/rateLimit.ts)\<close>

text \<open>
  The part of Redis the limiter uses: under each key a sorted set of members with their
  scores, and the key's expiry deadline if \<open>pexpire\<close> set one. A member is the string
  \<open>`${now}:${Math.random()}`\<close>: the pair of the time and the random draw. A key with
  no member does not exist. The store's clock is the caller's \<open>now\<close>.
\<close>

type_synonym zmember = "int \<times> nat"

record zkey =
  members :: "(zmember \<times> int) list"
  deadline :: "int option"

type_synonym redis_store = "string \<Rightarrow> zkey"

definition no_key :: zkey where
  "no_key = \<lparr>members = [], deadline = None\<rparr>"

definition empty_store :: redis_store where
  "empty_store = (\<lambda>_. no_key)"

definition drop_if_empty :: "zkey \<Rightarrow> zkey" where
  "drop_if_empty k = (if members k = [] then no_key else k)"

text \<open>A key whose deadline has passed is gone before the next command reads it.\<close>

definition expire_due :: "int \<Rightarrow> string \<Rightarrow> redis_store \<Rightarrow> redis_store" where
  "expire_due now key store =
     (case deadline (store key) of
        None \<Rightarrow> store
      | Some d \<Rightarrow> if d \<le> now then store(key := no_key) else store)"

definition zremrangebyscore :: "string \<Rightarrow> int \<Rightarrow> int \<Rightarrow> redis_store \<Rightarrow> redis_store" where
  "zremrangebyscore key lo hi store =
     store(key := drop_if_empty
       ((store key)\<lparr>members := filter (\<lambda>(m, score). \<not> (lo \<le> score \<and> score \<le> hi))
                                    (members (store key))\<rparr>))"

definition zcard :: "string \<Rightarrow> redis_store \<Rightarrow> int" where
  "zcard key store = int (length (members (store key)))"

definition zadd :: "string \<Rightarrow> int \<Rightarrow> zmember \<Rightarrow> redis_store \<Rightarrow> redis_store" where
  "zadd key score m store =
     store(key := (store key)\<lparr>members := filter (\<lambda>(m', s). m' \<noteq> m) (members (store key))
                                           @ [(m, score)]\<rparr>)"

definition pexpire :: "string \<Rightarrow> int \<Rightarrow> int \<Rightarrow> redis_store \<Rightarrow> redis_store" where
  "pexpire key ms now store =
     (if members (store key) = [] then store
      else store(key := (store key)\<lparr>deadline := Some (now + ms)\<rparr>))"

text \<open>
  How the store answers one call of \<open>checkRateLimit\<close>: \<open>pipeline.exec()\<close> resolves
  with the replies, resolves with \<open>null\<close>, or rejects; the later
  \<open>redis.zremrangebyscore\<close> rejects or not. A call that rejects or gives \<open>null\<close> leaves
  the store as it was. A pipeline that resolves holds the four replies of the store, so
  \<open>results[1]\<close> is the reply of \<open>zcard\<close>.
\<close>

datatype exec_outcome = ExecOk | ExecNull | ExecThrows

record rl_faults =
  exec :: exec_outcome
  removeThrows :: bool

definition no_faults :: rl_faults where
  "no_faults = \<lparr>exec = ExecOk, removeThrows = False\<rparr>"

record rl_result =
  allowed :: bool
  remaining :: int
  reset :: int

definition checkRateLimit ::
  "redis_store option \<Rightarrow> rl_faults \<Rightarrow> int \<Rightarrow> nat \<Rightarrow> string \<Rightarrow> int \<Rightarrow> int
   \<Rightarrow> redis_store option \<times> rl_result" where
  "checkRateLimit redis faults now rnd identifier limit windowMs =
     (case redis of
        None \<Rightarrow> (None, \<lparr>allowed = True, remaining = limit, reset = now + windowMs\<rparr>)
      | Some store \<Rightarrow>
          (let windowStart = now - windowMs;
               key = ''ratelimit:'' @ identifier
           in case exec faults of
                ExecThrows \<Rightarrow>
                  (Some store, \<lparr>allowed = True, remaining = limit, reset = now + windowMs\<rparr>)
              | ExecNull \<Rightarrow>
                  (Some store, \<lparr>allowed = True, remaining = limit, reset = now + windowMs\<rparr>)
              | ExecOk \<Rightarrow>
                  (let s1 = zremrangebyscore key 0 windowStart (expire_due now key store);
                       currentCount = zcard key s1;
                       s2 = zadd key now (now, rnd) s1;
                       s3 = pexpire key windowMs now s2;
                       remaining = max 0 (limit - currentCount - 1);
                       reset = now + windowMs;
                       allowed = (currentCount < limit)
                   in if \<not> allowed
                      then (if removeThrows faults
                            then (Some s3, \<lparr>allowed = True, remaining = limit,
                                            reset = now + windowMs\<rparr>)
                            else (Some (zremrangebyscore key now now s3),
                                  \<lparr>allowed = allowed, remaining = remaining, reset = reset\<rparr>))
                      else (Some s3, \<lparr>allowed = allowed, remaining = remaining, reset = reset\<rparr>))))"

text \<open>
  A series of calls for one identifier on a healthy store: each call has its time and
  its random draw; the answers are collected in order.
\<close>

fun rate_limit_calls ::
  "string \<Rightarrow> int \<Rightarrow> int \<Rightarrow> (int \<times> nat) list \<Rightarrow> redis_store \<Rightarrow> redis_store \<times> rl_result list" where
  "rate_limit_calls identifier limit windowMs [] store = (store, [])"
| "rate_limit_calls identifier limit windowMs ((now, rnd) # rest) store =
     (case checkRateLimit (Some store) no_faults now rnd identifier limit windowMs of
        (None, r) \<Rightarrow> (store, [r])
      | (Some store1, r) \<Rightarrow>
          (case rate_limit_calls identifier limit windowMs rest store1 of
             (store2, rs) \<Rightarrow> (store2, r # rs)))"

section \<open>Predicates and sample data used by the theorems\<close>

definition mentioned_ids :: "alert_event list \<Rightarrow> string set" where
  "mentioned_ids evs = set (concat (map event_ids evs))"

text \<open>The field that the alert's condition needs is present.\<close>

definition condition_field_set :: "PriceAlertRow \<Rightarrow> bool" where
  "condition_field_set row =
     (if condition row = percent_change then percentChange row \<noteq> None
      else targetPrice row \<noteq> None)"

text \<open>
  \<open>toString\<close> on the numbers of the sample requests below, which are integers of a few
  digits: such a number prints as itself.
\<close>

definition integer_toString :: "real \<Rightarrow> real" where
  "integer_toString x = x"

definition alert1 :: PriceAlertRow where
  "alert1 = \<lparr>alertId = ''a1'', userId = ''u1'', alertSymbol = ''BTC'', condition = above,
     targetPrice = Some 100, percentChange = None, basePrice = Some 90,
     isTriggered = False, isActive = True, createdAt = 0, triggeredAt = None\<rparr>"

definition alert2 :: PriceAlertRow where
  "alert2 = \<lparr>alertId = ''a2'', userId = ''u1'', alertSymbol = ''ETH'', condition = above,
     targetPrice = Some 10, percentChange = None, basePrice = Some 9,
     isTriggered = False, isActive = True, createdAt = 0, triggeredAt = None\<rparr>"

definition alert3 :: PriceAlertRow where
  "alert3 = \<lparr>alertId = ''a3'', userId = ''u1'', alertSymbol = ''BTC'', condition = below,
     targetPrice = Some 50, percentChange = None, basePrice = Some 90,
     isTriggered = False, isActive = True, createdAt = 0, triggeredAt = None\<rparr>"

definition alert4 :: PriceAlertRow where
  "alert4 = \<lparr>alertId = ''a4'', userId = ''u1'', alertSymbol = ''BTC'', condition = percent_change,
     targetPrice = None, percentChange = Some 10, basePrice = Some 100,
     isTriggered = False, isActive = True, createdAt = 0, triggeredAt = None\<rparr>"

definition alert5 :: PriceAlertRow where
  "alert5 = \<lparr>alertId = ''a5'', userId = ''u1'', alertSymbol = ''BTC'', condition = percent_change,
     targetPrice = None, percentChange = Some 0, basePrice = Some 100,
     isTriggered = False, isActive = True, createdAt = 0, triggeredAt = None\<rparr>"

definition alert6 :: PriceAlertRow where
  "alert6 = \<lparr>alertId = ''a6'', userId = ''u1'', alertSymbol = ''BTC'', condition = percent_change,
     targetPrice = None, percentChange = Some 29, basePrice = Some 100,
     isTriggered = False, isActive = True, createdAt = 0, triggeredAt = None\<rparr>"

definition no_alerts :: alert_state where
  "no_alerts = \<lparr>priceAlerts = [], events = []\<rparr>"

definition two_alerts :: alert_state where
  "two_alerts = \<lparr>priceAlerts = [alert1, alert2], events = []\<rparr>"

definition btc_alerts :: alert_state where
  "btc_alerts = \<lparr>priceAlerts = [alert1, alert3, alert4, alert5, alert6], events = []\<rparr>"

definition eth_update_fails :: db_faults where
  "eth_update_fails =
     \<lparr>selectFails = (\<lambda>_. False), updateFails = (\<lambda>ids. ''a2'' \<in> set ids), insertFails = False,
      countFails = False\<rparr>"

definition triggered_state :: alert_state where
  "triggered_state = fst (checkAllAlerts healthy [(10, btc_snapshot 150)] two_alerts)"

definition alert1_triggered :: PriceAlertRow where
  "alert1_triggered = alert1\<lparr>isTriggered := True, triggeredAt := Some 10\<rparr>"

definition both_fields_body :: alert_body where
  "both_fields_body =
     \<lparr>body_symbol = ''btc'', body_condition = ''above'',
      body_targetPrice = Some 100, body_percentChange = Some 5\<rparr>"

definition percent_body :: alert_body where
  "percent_body =
     \<lparr>body_symbol = ''eth'', body_condition = ''percent_change'',
      body_targetPrice = None, body_percentChange = Some (-10)\<rparr>"

definition null_base_row :: PriceAlertRow where
  "null_base_row = \<lparr>alertId = ''a9'', userId = ''u2'', alertSymbol = ''BTC'',
     condition = percent_change, targetPrice = None, percentChange = Some 10, basePrice = None,
     isTriggered = False, isActive = True, createdAt = 5, triggeredAt = None\<rparr>"

definition percent_row :: PriceAlertRow where
  "percent_row = \<lparr>alertId = ''a9'', userId = ''u2'', alertSymbol = ''ETH'',
     condition = percent_change, targetPrice = None, percentChange = Some (-10),
     basePrice = Some 2000, isTriggered = False, isActive = True, createdAt = 5,
     triggeredAt = None\<rparr>"

definition five_calls :: "(int \<times> nat) list" where
  "five_calls = [(1000, 1), (1000, 2), (1000, 3), (1000, 4), (1000, 5)]"

definition full_window :: redis_store where
  "full_window = fst (rate_limit_calls ''ip:1'' 5 60000 five_calls empty_store)"

definition remove_rejects :: rl_faults where
  "remove_rejects = \<lparr>exec = ExecOk, removeThrows = True\<rparr>"

section \<open>The registry: index and interest sets agree\<close>

lemma removeAll_empty: "removeAll x l = [] \<Longrightarrow> y \<in> set l \<Longrightarrow> y = x"
proof (rule ccontr)
  assume e: "removeAll x l = []" and m: "y \<in> set l" and n: "y \<noteq> x"
  from m n have "y \<in> set (removeAll x l)" by simp
  with e show False by simp
qed

lemma subs_rel_remove:
  "subs_rel (remove_subscriber sock s m) = subs_rel m - {(sock, s)}"
  unfolding subs_rel_def remove_subscriber_def set_delete_def Let_def
  by (cases "m s") (auto split: if_splits dest: removeAll_empty)

lemma subs_rel_add:
  "subs_rel (add_subscriber sock s m) = insert (sock, s) (subs_rel m)"
  unfolding subs_rel_def add_subscriber_def set_add_def
  by (cases "m s") (auto split: if_splits)

lemma subs_rel_fold_remove:
  "subs_rel (fold (remove_subscriber sock) syms m) = subs_rel m - {sock} \<times> set syms"
  by (induction syms arbitrary: m) (auto simp: subs_rel_remove)

lemma sendToClient_maps [simp]:
  "connections (sendToClient sock msg st) = connections st"
  "symbolSubscribers (sendToClient sock msg st) = symbolSubscribers st"
  "readyState (sendToClient sock msg st) = readyState st"
  by (simp_all add: sendToClient_def)

lemma sendError_maps [simp]:
  "connections (sendError sock msg code st) = connections st"
  "symbolSubscribers (sendError sock msg code st) = symbolSubscribers st"
  "readyState (sendError sock msg code st) = readyState st"
  by (simp_all add: sendError_def)

lemma consistent_cong:
  "connections st' = connections st \<Longrightarrow> symbolSubscribers st' = symbolSubscribers st
   \<Longrightarrow> consistent st' = consistent st"
  by (simp add: consistent_def index_rel_def conn_rel_def)

lemma send_current_prices_maps:
  "connections (fst (send_current_prices gp sock syms st)) = connections st \<and>
   symbolSubscribers (fst (send_current_prices gp sock syms st)) = symbolSubscribers st"
  by (induction gp sock syms st rule: send_current_prices.induct)
     (auto split: sum.splits option.splits)

lemma subscribe_symbol_rels:
  assumes "connections st sock = Some c"
  shows "index_rel (subscribe_symbol sock s st) = insert (sock, s) (index_rel st)"
    and "conn_rel (subscribe_symbol sock s st) = insert (sock, s) (conn_rel st)"
    and "\<exists>c'. connections (subscribe_symbol sock s st) sock = Some c'"
  using assms
  by (auto simp: subscribe_symbol_def update_connection_def index_rel_def conn_rel_def
        subs_rel_add set_add_def split: if_splits)

lemma subscribe_symbol_consistent:
  "consistent st \<Longrightarrow> connections st sock = Some c \<Longrightarrow> consistent (subscribe_symbol sock s st)"
  by (simp add: consistent_def subscribe_symbol_rels)

lemma fold_subscribe_consistent:
  "consistent st \<Longrightarrow> connections st sock = Some c \<Longrightarrow>
   consistent (fold (subscribe_symbol sock) syms st) \<and>
   (\<exists>c'. connections (fold (subscribe_symbol sock) syms st) sock = Some c')"
proof (induction syms arbitrary: st c)
  case Nil
  then show ?case by simp
next
  case (Cons s syms)
  from Cons.prems have 1: "consistent (subscribe_symbol sock s st)"
    by (rule subscribe_symbol_consistent)
  from Cons.prems(2) obtain c' where 2: "connections (subscribe_symbol sock s st) sock = Some c'"
    using subscribe_symbol_rels(3) by blast
  from Cons.IH[OF 1 2] show ?case by simp
qed

lemma unsubscribe_symbol_rels:
  "index_rel (unsubscribe_symbol sock s st) = index_rel st - {(sock, toUpperCase s)}"
  "conn_rel (unsubscribe_symbol sock s st) \<subseteq> conn_rel st"
  "conn_rel st - {(sock, toUpperCase s)} \<subseteq> conn_rel (unsubscribe_symbol sock s st)"
  "(sock, toUpperCase s) \<notin> conn_rel (unsubscribe_symbol sock s st)"
  by (auto simp: unsubscribe_symbol_def update_connection_def index_rel_def conn_rel_def
        subs_rel_remove set_delete_def Let_def split: option.splits if_splits)

lemma unsubscribe_symbol_consistent:
  "consistent st \<Longrightarrow> consistent (unsubscribe_symbol sock s st)"
  unfolding consistent_def
  using unsubscribe_symbol_rels[where sock=sock and s=s and st=st] by blast

lemma fold_unsubscribe_consistent:
  "consistent st \<Longrightarrow> consistent (fold (unsubscribe_symbol sock) syms st)"
  by (induction syms arbitrary: st) (auto simp: unsubscribe_symbol_consistent)

lemma handleDisconnection_consistent:
  "consistent st \<Longrightarrow> consistent (handleDisconnection sock st)"
proof (cases "connections st sock")
  case None
  assume "consistent st"
  with None show ?thesis by (simp add: handleDisconnection_def)
next
  case (Some c)
  assume cons: "consistent st"
  have i: "index_rel (handleDisconnection sock st)
             = index_rel st - {sock} \<times> set (subscribedSymbols c)"
    using Some by (simp add: handleDisconnection_def index_rel_def subs_rel_fold_remove)
  have c: "conn_rel (handleDisconnection sock st) = conn_rel st - {sock} \<times> UNIV"
    using Some by (auto simp: handleDisconnection_def conn_rel_def split: if_splits)
  have "conn_rel st - {sock} \<times> UNIV = conn_rel st - {sock} \<times> set (subscribedSymbols c)"
    using Some by (auto simp: conn_rel_def)
  with i c cons show ?thesis by (simp add: consistent_def)
qed

lemma update_lastPing_rels:
  "index_rel (update_connection sock (\<lambda>c. c\<lparr>lastPing := now\<rparr>) st) = index_rel st"
  "conn_rel (update_connection sock (\<lambda>c. c\<lparr>lastPing := now\<rparr>) st) = conn_rel st"
  "(connections (update_connection sock (\<lambda>c. c\<lparr>lastPing := now\<rparr>) st) sock = None)
     = (connections st sock = None)"
  by (auto simp: update_connection_def index_rel_def conn_rel_def split: option.splits if_splits)

lemma update_lastPing_consistent:
  "consistent (update_connection sock (\<lambda>c. c\<lparr>lastPing := now\<rparr>) st) = consistent st"
  by (simp add: consistent_def update_lastPing_rels)

lemma handleConnection_consistent:
  assumes "consistent st" and "connections st sock = None"
  shows "consistent (handleConnection sock uid now st)"
proof -
  have i: "index_rel (handleConnection sock uid now st) = index_rel st"
    by (simp add: handleConnection_def index_rel_def)
  have "\<And>s. (sock, s) \<notin> conn_rel st"
    using assms(2) by (simp add: conn_rel_def)
  then have c: "conn_rel (handleConnection sock uid now st) = conn_rel st"
    using assms(2) by (auto simp: handleConnection_def conn_rel_def split: if_splits)
  from i c assms(1) show ?thesis by (simp add: consistent_def)
qed

lemma handleSubscribe_consistent:
  assumes "consistent st" and "connections st sock = Some c"
  shows "consistent (fst (handleSubscribe gp sock syms st))"
proof -
  obtain valid invalid where cl: "classify_symbols syms = (valid, invalid)"
    by (cases "classify_symbols syms")
  define st1 where "st1 = (if length invalid > 0
       then sendError sock (''Unsupported symbols: '' @ join_comma invalid)
              (Some ''INVALID_SYMBOLS'') st
       else st)"
  define st2 where "st2 = fold (subscribe_symbol sock) valid st1"
  define st3 where "st3 = sendToClient sock
       (Subscribed (case connections st2 sock of None \<Rightarrow> [] | Some c \<Rightarrow> subscribedSymbols c)) st2"
  have e: "handleSubscribe gp sock syms st = send_current_prices gp sock valid st3"
    by (simp add: handleSubscribe_def cl st1_def st2_def st3_def Let_def)
  have m1: "connections st1 = connections st" "symbolSubscribers st1 = symbolSubscribers st"
    by (simp_all add: st1_def)
  then have "consistent st1" "connections st1 sock = Some c"
    using assms consistent_cong[of st1 st] by simp_all
  then have "consistent st2"
    unfolding st2_def using fold_subscribe_consistent by blast
  then have "consistent st3"
    using consistent_cong[of st3 st2] by (simp add: st3_def)
  then show ?thesis
    using consistent_cong[of "fst (send_current_prices gp sock valid st3)" st3]
      send_current_prices_maps[of gp sock valid st3] by (simp add: e)
qed

lemma handleUnsubscribe_consistent:
  "consistent st \<Longrightarrow> consistent (handleUnsubscribe sock syms st)"
  using consistent_cong[of "handleUnsubscribe sock syms st"
      "fold (unsubscribe_symbol sock) syms st"]
  by (simp add: handleUnsubscribe_def fold_unsubscribe_consistent)

lemma sendError_consistent: "consistent (sendError sock m code st) = consistent st"
  by (rule consistent_cong) simp_all

lemma handleMessage_consistent:
  assumes "consistent st"
  shows "consistent (handleMessage gp sock data now st)"
proof (cases "connections st sock")
  case None
  then show ?thesis using assms by (simp add: handleMessage_def sendError_consistent)
next
  case (Some c)
  define st1 where "st1 = update_connection sock (\<lambda>c. c\<lparr>lastPing := now\<rparr>) st"
  have c1: "consistent st1" using assms by (simp add: st1_def update_lastPing_consistent)
  obtain c1 where s1: "connections st1 sock = Some c1"
    using Some update_lastPing_rels(3)[of sock now st] by (auto simp: st1_def)
  have sub: "\<And>syms. consistent (case handleSubscribe gp sock syms st1 of
       (st2, threw) \<Rightarrow> if threw
          then sendError sock ''Failed to parse message'' (Some ''PARSE_ERROR'') st2 else st2)"
  proof -
    fix syms
    obtain st2 threw where h: "handleSubscribe gp sock syms st1 = (st2, threw)"
      by (cases "handleSubscribe gp sock syms st1")
    have "consistent st2"
      using handleSubscribe_consistent[OF c1 s1, of gp syms] h by simp
    then show "consistent (case handleSubscribe gp sock syms st1 of
       (st2, threw) \<Rightarrow> if threw
          then sendError sock ''Failed to parse message'' (Some ''PARSE_ERROR'') st2 else st2)"
      by (simp add: h sendError_consistent)
  qed
  show ?thesis
    using Some c1 sub
    by (auto simp: handleMessage_def st1_def[symmetric] Let_def sendError_consistent
          handleUnsubscribe_consistent split: raw_message.splits option.splits)
qed

lemma readyState_update_consistent:
  "consistent (st\<lparr>readyState := r\<rparr>) = consistent st"
  by (rule consistent_cong) simp_all

lemma ws_step_consistent:
  assumes "consistent st"
    and "case snd ev of Open sock _ \<Rightarrow> connections st sock = None | _ \<Rightarrow> True"
  shows "consistent (ws_step gp ev st)"
proof (cases ev)
  case (Pair now e)
  show ?thesis
  proof (cases e)
    case (Open sock uid)
    have "consistent (st\<lparr>readyState := (readyState st)(sock := OPEN)\<rparr>)"
      using assms(1) by (simp add: readyState_update_consistent)
    moreover have "connections (st\<lparr>readyState := (readyState st)(sock := OPEN)\<rparr>) sock = None"
      using assms(2) Pair Open by simp
    ultimately show ?thesis
      using Pair Open by (simp add: ws_step_def handleConnection_consistent)
  next
    case (Frame sock data)
    then show ?thesis using Pair assms(1) by (simp add: ws_step_def handleMessage_consistent)
  next
    case (PingFrame sock)
    have "consistent (handlePing sock now st)"
      using assms(1) by (simp add: handlePing_def update_lastPing_consistent)
    then show ?thesis
      using Pair PingFrame
        consistent_cong[of "(handlePing sock now st)\<lparr>outbox :=
            outbox (handlePing sock now st) @ [(sock, Pong)]\<rparr>" "handlePing sock now st"]
      by (simp add: ws_step_def Let_def)
  next
    case (CloseEvent sock)
    have "consistent (st\<lparr>readyState := (readyState st)(sock := CLOSED)\<rparr>)"
      using assms(1) by (simp add: readyState_update_consistent)
    then show ?thesis
      using Pair CloseEvent by (simp add: ws_step_def handleDisconnection_consistent)
  next
    case (ErrorEvent sock)
    then show ?thesis using Pair assms(1) by (simp add: ws_step_def handleDisconnection_consistent)
  next
    case (Transport sock rs)
    then show ?thesis
      using Pair assms(1) by (simp add: ws_step_def readyState_update_consistent)
  qed
qed

lemma ws_run_consistent:
  "consistent st \<Longrightarrow> fresh_opens gp evs st \<Longrightarrow> consistent (ws_run gp evs st)"
  unfolding ws_run_def
  by (induction evs arbitrary: st) (auto simp: ws_step_consistent)

lemma empty_registry_consistent: "consistent empty_registry"
  by (simp add: consistent_def index_rel_def conn_rel_def subs_rel_def empty_registry_def)

lemmas ws_eval_defs =
  empty_registry_def ws_run_def ws_step_def handleConnection_def
  handleMessage_def sendToClient_def sendError_def update_connection_def handleSubscribe_def
  handleUnsubscribe_def handleDisconnection_def symbols_schema_def toUpperCase_def upper_char_def
  getSupportedSymbols_def subscribe_symbol_def unsubscribe_symbol_def add_subscriber_def
  remove_subscriber_def set_add_def set_delete_def Let_def no_price_def

lemma demo_trace_fresh: "fresh_opens no_price demo_trace empty_registry"
  by (simp add: demo_trace_def ws_eval_defs)

lemma closed_subscriber_trace_fresh: "fresh_opens no_price closed_subscriber_trace empty_registry"
  by (simp add: closed_subscriber_trace_def ws_eval_defs)

text \<open>
  C1. Starting from the empty registry, after any sequence of route events (sockets
  opened, subscribe and unsubscribe messages valid or not, pings, close and error
  events, transport state changes) in which a socket is opened only while it is not
  registered, a socket is in \<open>symbolSubscribers[s]\<close> if and only if \<open>s\<close> is in the
  \<open>subscribedSymbols\<close> of that socket's connection.
\<close>

theorem registry_index_consistent:
  assumes "fresh_opens getPrice evs empty_registry"
  shows "(\<exists>subscribers. symbolSubscribers (ws_run getPrice evs empty_registry) symb = Some subscribers
            \<and> sock \<in> set subscribers)
         \<longleftrightarrow>
         (\<exists>c. connections (ws_run getPrice evs empty_registry) sock = Some c
            \<and> symb \<in> set (subscribedSymbols c))"
proof -
  have "consistent (ws_run getPrice evs empty_registry)"
    using assms empty_registry_consistent by (rule ws_run_consistent[rotated])
  then have "((sock, symb) \<in> index_rel (ws_run getPrice evs empty_registry))
           = ((sock, symb) \<in> conn_rel (ws_run getPrice evs empty_registry))"
    by (simp add: consistent_def)
  then show ?thesis by (simp add: index_rel_def subs_rel_def conn_rel_def)
qed

theorem registry_index_consistent_witness:
  "fresh_opens no_price demo_trace empty_registry
   \<and> symbolSubscribers (ws_run no_price demo_trace empty_registry) ''BTC'' = Some [2]
   \<and> (\<exists>c. connections (ws_run no_price demo_trace empty_registry) 2 = Some c
          \<and> ''BTC'' \<in> set (subscribedSymbols c))
   \<and> symbolSubscribers (ws_run no_price demo_trace empty_registry) ''ETH'' = None
   \<and> connections (ws_run no_price demo_trace empty_registry) 1 = None"
proof -
  have f: "fresh_opens no_price demo_trace empty_registry" by (rule demo_trace_fresh)
  have s: "symbolSubscribers (ws_run no_price demo_trace empty_registry) ''BTC'' = Some [2]"
    "symbolSubscribers (ws_run no_price demo_trace empty_registry) ''ETH'' = None"
    "connections (ws_run no_price demo_trace empty_registry) 1 = None"
    by (simp_all add: demo_trace_def ws_eval_defs)
  from registry_index_consistent[OF f, of "''BTC''" 2] s(1)
  have "\<exists>c. connections (ws_run no_price demo_trace empty_registry) 2 = Some c
          \<and> ''BTC'' \<in> set (subscribedSymbols c)" by simp
  with f s show ?thesis by simp
qed

section \<open>Registration and the connection cap\<close>

lemma open_sockets_Suc: "open_sockets (Suc n) = open_sockets n @ [(int n, Open n None)]"
  by (simp add: open_sockets_def)

lemma connections_open_sockets:
  "connections (ws_run gp (open_sockets n) empty_registry)
     = (\<lambda>sock. if sock < n
                then Some \<lparr>socket = sock, subscribedSymbols = [], connUserId = None,
                           lastPing = int sock\<rparr>
                else None)"
proof (induction n)
  case 0
  then show ?case by (simp add: open_sockets_def ws_run_def empty_registry_def)
next
  case (Suc n)
  have "ws_run gp (open_sockets (Suc n)) empty_registry
          = ws_step gp (int n, Open n None) (ws_run gp (open_sockets n) empty_registry)"
    by (simp add: open_sockets_Suc ws_run_def)
  then show ?case
    using Suc by (auto simp: ws_step_def handleConnection_def fun_eq_iff)
qed

lemma dom_open_sockets: "dom (connections (ws_run gp (open_sockets n) empty_registry)) = {..<n}"
  by (auto simp: connections_open_sockets dom_def)

text \<open>
  Beside C6: \<open>handleConnection\<close> registers the socket with an empty interest set in
  every state, and leaves the other sockets' entries and the index as they were.
\<close>

lemma handleConnection_always_admits:
  "connections (handleConnection sock uid now st)
     = (connections st)(sock \<mapsto> \<lparr>socket = sock, subscribedSymbols = [], connUserId = uid,
                                     lastPing = now\<rparr>)
   \<and> symbolSubscribers (handleConnection sock uid now st) = symbolSubscribers st"
  by (simp add: handleConnection_def)

text \<open>
  C6. After \<open>WS_MAX_CONNECTIONS\<close> sockets have been opened the registry holds that many
  connections; \<open>handleConnection\<close> for one more socket still registers it, with an
  empty interest set, and the connection map grows to \<open>WS_MAX_CONNECTIONS + 1\<close>
  entries: nothing is rejected.
\<close>

theorem cap_not_enforced:
  "card (dom (connections (ws_run no_price (open_sockets WS_MAX_CONNECTIONS) empty_registry)))
     = WS_MAX_CONNECTIONS
   \<and> connections (handleConnection WS_MAX_CONNECTIONS None 5000
        (ws_run no_price (open_sockets WS_MAX_CONNECTIONS) empty_registry)) WS_MAX_CONNECTIONS
     = Some \<lparr>socket = WS_MAX_CONNECTIONS, subscribedSymbols = [], connUserId = None,
              lastPing = 5000\<rparr>
   \<and> card (dom (connections (handleConnection WS_MAX_CONNECTIONS None 5000
        (ws_run no_price (open_sockets WS_MAX_CONNECTIONS) empty_registry))))
     = WS_MAX_CONNECTIONS + 1"
proof -
  let ?st = "ws_run no_price (open_sockets WS_MAX_CONNECTIONS) empty_registry"
  have d: "dom (connections ?st) = {..<WS_MAX_CONNECTIONS}" by (rule dom_open_sockets)
  have "dom (connections (handleConnection WS_MAX_CONNECTIONS None 5000 ?st))
          = insert WS_MAX_CONNECTIONS {..<WS_MAX_CONNECTIONS}"
    using d by (simp add: handleConnection_def)
  then have "card (dom (connections (handleConnection WS_MAX_CONNECTIONS None 5000 ?st)))
          = WS_MAX_CONNECTIONS + 1" by simp
  moreover have "card (dom (connections ?st)) = WS_MAX_CONNECTIONS" using d by simp
  ultimately show ?thesis by (simp add: handleConnection_def)
qed

section \<open>Broadcast to a closed socket\<close>

lemma send_all_effect:
  "connections (send_all msg socks st) = connections st
   \<and> symbolSubscribers (send_all msg socks st) = symbolSubscribers st
   \<and> readyState (send_all msg socks st) = readyState st
   \<and> outbox (send_all msg socks st)
       = outbox st @ map (\<lambda>sock. (sock, msg)) (filter (\<lambda>sock. readyState st sock = OPEN) socks)"
  by (induction msg socks st rule: send_all.induct) (auto simp: sendToClient_def)

lemma handleDisconnection_removes:
  assumes "consistent st"
  shows "connections (handleDisconnection sock st) sock = None"
    and "symbolSubscribers (handleDisconnection sock st) symb = Some l \<Longrightarrow> sock \<notin> set l"
proof -
  show c: "connections (handleDisconnection sock st) sock = None"
    by (simp add: handleDisconnection_def split: option.splits)
  have "consistent (handleDisconnection sock st)"
    using assms by (rule handleDisconnection_consistent)
  moreover have "(sock, symb) \<notin> conn_rel (handleDisconnection sock st)"
    using c by (simp add: conn_rel_def)
  ultimately have "(sock, symb) \<notin> index_rel (handleDisconnection sock st)"
    by (simp add: consistent_def)
  then show "symbolSubscribers (handleDisconnection sock st) symb = Some l \<Longrightarrow> sock \<notin> set l"
    by (auto simp: index_rel_def subs_rel_def)
qed

text \<open>
  C7, as the claim states it, fails: sockets 1 and 2 are subscribed to BTC, the transport
  of socket 1 is closing and that of socket 2 is closed; the broadcast of a BTC price
  sends nothing, and afterwards both are still in the connection map and still in the
  interest set of BTC.
\<close>

theorem closed_subscriber_counterexample:
  "readyState (ws_run no_price closed_subscriber_trace empty_registry) 1 = CLOSING
   \<and> readyState (ws_run no_price closed_subscriber_trace empty_registry) 2 = CLOSED
   \<and> symbolSubscribers (ws_run no_price closed_subscriber_trace empty_registry) ''BTC''
       = Some [1, 2]
   \<and> connections (broadcastPriceUpdate (btc_snapshot 100)
        (ws_run no_price closed_subscriber_trace empty_registry)) 1
      = Some \<lparr>socket = 1, subscribedSymbols = [''BTC''], connUserId = None, lastPing = 1\<rparr>
   \<and> connections (broadcastPriceUpdate (btc_snapshot 100)
        (ws_run no_price closed_subscriber_trace empty_registry)) 2
      = Some \<lparr>socket = 2, subscribedSymbols = [''BTC''], connUserId = None, lastPing = 3\<rparr>
   \<and> symbolSubscribers (broadcastPriceUpdate (btc_snapshot 100)
        (ws_run no_price closed_subscriber_trace empty_registry)) ''BTC'' = Some [1, 2]
   \<and> outbox (broadcastPriceUpdate (btc_snapshot 100)
        (ws_run no_price closed_subscriber_trace empty_registry))
      = outbox (ws_run no_price closed_subscriber_trace empty_registry)"
  by (simp add: closed_subscriber_trace_def ws_eval_defs broadcastPriceUpdate_def btc_snapshot_def)

text \<open>
  C7, amended. A price broadcast leaves the connection map and every interest set as
  they were; it sends the message once to each subscriber of the symbol whose socket is
  open, in the order of the set, and nothing to the others (no retry). A socket is
  deregistered by \<open>handleDisconnection\<close> (its close or error event): in a consistent
  registry that removes it from the connection map and from every symbol's interest set.
\<close>

theorem broadcast_skips_closed:
  "connections (broadcastPriceUpdate p st) = connections st
   \<and> symbolSubscribers (broadcastPriceUpdate p st) = symbolSubscribers st
   \<and> outbox (broadcastPriceUpdate p st)
       = outbox st @ map (\<lambda>sock. (sock, PriceUpdate p))
                       (filter (\<lambda>sock. readyState st sock = OPEN)
                          (case symbolSubscribers st (symbol p) of None \<Rightarrow> [] | Some l \<Rightarrow> l))
   \<and> (consistent st \<longrightarrow>
        connections (handleDisconnection sock st) sock = None
        \<and> (\<forall>symb l. symbolSubscribers (handleDisconnection sock st) symb = Some l
                     \<longrightarrow> sock \<notin> set l))"
proof -
  have "connections (broadcastPriceUpdate p st) = connections st
   \<and> symbolSubscribers (broadcastPriceUpdate p st) = symbolSubscribers st
   \<and> outbox (broadcastPriceUpdate p st)
       = outbox st @ map (\<lambda>sock. (sock, PriceUpdate p))
                       (filter (\<lambda>sock. readyState st sock = OPEN)
                          (case symbolSubscribers st (symbol p) of None \<Rightarrow> [] | Some l \<Rightarrow> l))"
    by (cases "symbolSubscribers st (symbol p)")
       (simp_all add: broadcastPriceUpdate_def send_all_effect)
  then show ?thesis using handleDisconnection_removes by blast
qed

theorem broadcast_skips_closed_witness:
  "consistent (ws_run no_price closed_subscriber_trace empty_registry)
   \<and> outbox (broadcastPriceUpdate (btc_snapshot 100)
        (ws_run no_price closed_subscriber_trace empty_registry))
      = outbox (ws_run no_price closed_subscriber_trace empty_registry)
   \<and> connections (handleDisconnection 1
        (ws_run no_price closed_subscriber_trace empty_registry)) 1 = None
   \<and> symbolSubscribers (handleDisconnection 1
        (ws_run no_price closed_subscriber_trace empty_registry)) ''BTC'' = Some [2]"
proof -
  let ?st = "ws_run no_price closed_subscriber_trace empty_registry"
  have c: "consistent ?st"
    using empty_registry_consistent closed_subscriber_trace_fresh by (rule ws_run_consistent)
  have r: "readyState ?st 1 = CLOSING" "readyState ?st 2 = CLOSED"
    "symbolSubscribers ?st ''BTC'' = Some [1, 2]"
    "symbol (btc_snapshot 100) = ''BTC''"
    by (simp_all add: closed_subscriber_trace_def ws_eval_defs btc_snapshot_def)
  have n: "symbolSubscribers (handleDisconnection 1 ?st) ''BTC'' = Some [2]"
    by (simp add: closed_subscriber_trace_def ws_eval_defs)
  from broadcast_skips_closed[of "btc_snapshot 100" ?st 1] c r n
  show ?thesis by simp
qed

section \<open>Binary64 rounding at given values\<close>

lemma two_powi_Suc: "(2::real) powi (e + 1) = 2 * 2 powi e"
  by (simp add: power_int_add)

lemma two_powi_pred: "(2::real) powi (e - 1) = 2 powi e / 2"
  using two_powi_Suc[of "e - 1"] by simp

lemma binade_unique:
  "2 powi e \<le> a \<Longrightarrow> a < 2 powi (e + 1) \<Longrightarrow> binade a = e"
proof (induction "nat \<bar>e\<bar>" arbitrary: e a)
  case 0
  then have e: "e = 0" by simp
  with "0.prems" have "1 \<le> a" "a < 2" by simp_all
  then show ?case using e by (simp add: binade.simps)
next
  case (Suc n)
  show ?case
  proof (cases "0 < e")
    case True
    have "(2::real) powi 1 \<le> 2 powi e" using True by (intro power_int_increasing) simp_all
    then have a2: "2 \<le> a" using Suc.prems(1) by simp
    have l: "2 powi (e - 1) \<le> a / 2" using Suc.prems(1) by (simp add: two_powi_pred)
    have u: "a / 2 < 2 powi (e - 1 + 1)" using Suc.prems(2) by (simp add: two_powi_Suc)
    have "n = nat \<bar>e - 1\<bar>" using Suc.hyps(2) True by linarith
    from Suc.hyps(1)[OF this l u] have "binade (a / 2) = e - 1" .
    then show ?thesis using a2 by (subst binade.simps) simp
  next
    case False
    then have neg: "e < 0" using Suc.hyps(2) by linarith
    have "(2::real) powi (e + 1) \<le> 2 powi 0" using neg by (intro power_int_increasing) simp_all
    then have a1: "a < 1" using Suc.prems(2) by simp
    have "(0::real) < 2 powi e" by simp
    then have a0: "0 < a" using Suc.prems(1) by linarith
    have l: "2 powi (e + 1) \<le> a * 2" using Suc.prems(1) by (simp add: two_powi_Suc)
    have u: "a * 2 < 2 powi (e + 1 + 1)" using Suc.prems(2) two_powi_Suc[of "e + 1"] by simp
    have "n = nat \<bar>e + 1\<bar>" using Suc.hyps(2) neg by linarith
    from Suc.hyps(1)[OF this l u] have "binade (a * 2) = e + 1" .
    then show ?thesis using a0 a1 by (subst binade.simps) simp
  qed
qed

text \<open>
  The rounding of a positive \<open>x\<close> in the binade \<open>e\<close>: the nearest multiple of
  \<open>2 powi q\<close>, the last place of that binade.
\<close>

lemma fl_positive:
  assumes "2 powi e \<le> x" and "x < 2 powi (e + 1)"
    and "q = max e (- 1022) - 52"
    and "round_half_even (x / 2 powi q) = n"
    and "of_int n * 2 powi q < (2::real) powi 1024"
  shows "fl x = Finite (of_int n * 2 powi q)"
proof -
  have "(0::real) < 2 powi e" by simp
  then have x0: "0 < x" using assms(1) by linarith
  have b: "binade x = e" using binade_unique[OF assms(1,2)] .
  show ?thesis
    unfolding fl_def using x0 assms(3,4,5) by (simp add: b Let_def)
qed


lemma fl_10: "fl 10 = Finite 10"
  using fl_positive[of 3 10 "-49" 5629499534213120]
  by (simp add: round_half_even_def)

lemma fl_29: "fl 29 = Finite 29"
  using fl_positive[of 4 29 "-48" 8162774324609024]
  by (simp add: round_half_even_def)

lemma fl_30: "fl 30 = Finite 30"
  using fl_positive[of 4 30 "-48" 8444249301319680]
  by (simp add: round_half_even_def)


lemma fl_100: "fl 100 = Finite 100"
  using fl_positive[of 6 100 "-46" 7036874417766400]
  by (simp add: round_half_even_def)





lemma fl_29_100: "fl (29 / 100) = Finite (5224175567749775 / 18014398509481984)"
  using fl_positive[of "-2" "29 / 100" "-54" 5224175567749775]
  by (simp add: round_half_even_def)

lemma fl_3_10: "fl (3 / 10) = Finite (5404319552844595 / 18014398509481984)"
  using fl_positive[of "-2" "3 / 10" "-54" 5404319552844595]
  by (simp add: round_half_even_def)


lemma percent_29: "js_times (Finite (5224175567749775 / 18014398509481984)) (Finite 100) = Finite (8162774324609023 / 281474976710656)"
  using fl_positive[of 4 "5224175567749775 / 18014398509481984 * 100" "-48" 8162774324609023]
  by (simp add: round_half_even_def)

lemma percent_30: "js_times (Finite (5404319552844595 / 18014398509481984)) (Finite 100) = Finite 30"
  using fl_positive[of 4 "5404319552844595 / 18014398509481984 * 100" "-48" 8444249301319680]
  by (simp add: round_half_even_def)


lemma actual_129:
  "actual_percent 129 (Finite 100) = Finite (8162774324609023 / 281474976710656)"
proof -
  have 1: "js_minus (Finite 129) (Finite 100) = Finite 29" using fl_29 by simp
  have 2: "js_divide (Finite 29) (Finite 100) = Finite (5224175567749775 / 18014398509481984)"
    using fl_29_100 by simp
  show ?thesis unfolding actual_percent_def 1 2 by (rule percent_29)
qed

lemma actual_130: "actual_percent 130 (Finite 100) = Finite 30"
proof -
  have 1: "js_minus (Finite 130) (Finite 100) = Finite 30" using fl_30 by simp
  have 2: "js_divide (Finite 30) (Finite 100) = Finite (5404319552844595 / 18014398509481984)"
    using fl_3_10 by simp
  show ?thesis unfolding actual_percent_def 1 2 by (rule percent_30)
qed

section \<open>Alert evaluation\<close>

lemmas alert_eval_defs =
  checkAlertsForPrice_def alerts_to_trigger_def select_active_def shouldTrigger_def
  mark_triggered_def toApiAlert_def Let_def btc_snapshot_def eth_snapshot_def fl_100 fl_10

lemmas demo_alert_defs = alert1_def alert2_def alert3_def alert4_def alert5_def alert6_def
  btc_alerts_def two_alerts_def btc_snapshot_def eth_snapshot_def

lemma alerts_to_trigger_props:
  "a \<in> set (alerts_to_trigger p rows) \<Longrightarrow>
     a \<in> set rows \<and> \<not> isTriggered a \<and> isActive a \<and> alertSymbol a = symbol p \<and> shouldTrigger a p"
  by (auto simp: alerts_to_trigger_def select_active_def)

lemma mark_triggered_ids [simp]: "map alertId (mark_triggered ids now rows) = map alertId rows"
  by (induction rows) (auto simp: mark_triggered_def)

lemma mark_triggered_keeps:
  "a \<in> set rows \<Longrightarrow> alertId a \<notin> set ids \<Longrightarrow> a \<in> set (mark_triggered ids now rows)"
  by (force simp: mark_triggered_def)


lemma distinct_ids_eq:
  "distinct (map alertId rows) \<Longrightarrow> a \<in> set rows \<Longrightarrow> a' \<in> set rows \<Longrightarrow>
   alertId a = alertId a' \<Longrightarrow> a = a'"
  by (meson distinct_map inj_onD)






text \<open>
  Beside C2: the rounding shows at a boundary. With base price 100 and threshold 29, at
  the price 129 the quotient \<open>29 / 100\<close> rounds down and \<open>actual\<close> is
  \<open>28.999999999999996\<close>, below the threshold, so the alert is not triggered although
  \<open>(129 - 100) / 100 * 100\<close> is 29 in exact arithmetic; at the price 130 \<open>actual\<close> is
  30 and the alert is triggered.
\<close>

lemma percent_boundary:
  "actual_percent 129 (Finite 100) = Finite (8162774324609023 / 281474976710656)
   \<and> 8162774324609023 / 281474976710656 < (29::real)
   \<and> \<not> shouldTrigger alert6 (btc_snapshot 129) \<and> shouldTrigger alert6 (btc_snapshot 130)"
  by (simp add: shouldTrigger_def alert6_def btc_snapshot_def fl_100 fl_29 actual_129 actual_130)

section \<open>Persisting and announcing triggers\<close>

text \<open>
  C3, as the claim states it, fails for a pass over several snapshots. With one alert on
  BTC and one on ETH and a pass over a BTC and an ETH snapshot that trigger both, the
  pass makes two updates, and the BTC alert is announced before the ETH alert is
  persisted; when the second update fails, the pass ends in an error although the BTC
  trigger of the same pass has been persisted and announced.
\<close>

theorem pass_batch_counterexample:
  "events (fst (checkAllAlerts healthy [(10, btc_snapshot 150), (20, eth_snapshot 20)] two_alerts))
     = [Persisted [''a1''] 10, Announced (toApiAlert alert1) (btc_snapshot 150),
        Persisted [''a2''] 20, Announced (toApiAlert alert2) (eth_snapshot 20)]
   \<and> snd (checkAllAlerts eth_update_fails [(10, btc_snapshot 150), (20, eth_snapshot 20)]
            two_alerts)
     = Inl DbError
   \<and> events (fst (checkAllAlerts eth_update_fails [(10, btc_snapshot 150), (20, eth_snapshot 20)]
                   two_alerts))
     = [Persisted [''a1''] 10, Announced (toApiAlert alert1) (btc_snapshot 150)]"
  by (simp add: alert_eval_defs healthy_def eth_update_fails_def two_alerts_def alert1_def
      alert2_def)

text \<open>
  C3, amended: the batch is the set of alerts that one snapshot triggers. When the
  alerts the snapshot triggers are read and their update succeeds, the service makes one
  update, which marks every one of them triggered with the timestamp, and only then
  announces them, in order. When the update fails, the table and the announcements are
  as before, the call fails, and the pass ends there with the error. When the snapshot
  triggers nothing, nothing changes.
\<close>

theorem snapshot_batch:
  fixes faults :: db_faults and now :: int and p :: CryptoPrice and st :: alert_state
  defines "T \<equiv> alerts_to_trigger p (priceAlerts st)"
  defines "st' \<equiv> fst (checkAlertsForPrice faults now p st)"
  defines "res \<equiv> snd (checkAlertsForPrice faults now p st)"
  shows "(\<not> selectFails faults (symbol p) \<and> T \<noteq> [] \<and> \<not> updateFails faults (map alertId T) \<longrightarrow>
            events st' = events st @ Persisted (map alertId T) now
                                   # map (\<lambda>a. Announced (toApiAlert a) p) T
          \<and> priceAlerts st' = mark_triggered (map alertId T) now (priceAlerts st)
          \<and> (\<forall>a \<in> set (priceAlerts st'). alertId a \<in> alertId ` set T \<longrightarrow>
                isTriggered a \<and> triggeredAt a = Some now)
          \<and> res = Inr (map toApiAlert T))
       \<and> (\<not> selectFails faults (symbol p) \<and> T \<noteq> [] \<and> updateFails faults (map alertId T) \<longrightarrow>
            st' = st \<and> res = Inl DbError
          \<and> checkAllAlerts faults ((now, p) # rest) st = (st, Inl DbError))
       \<and> (\<not> selectFails faults (symbol p) \<and> T = [] \<longrightarrow> st' = st \<and> res = Inr [])"
  unfolding T_def st'_def res_def
  by (auto simp: checkAlertsForPrice_def Let_def mark_triggered_def)

theorem snapshot_batch_witness:
  "alerts_to_trigger (btc_snapshot 150) (priceAlerts two_alerts) = [alert1]
   \<and> events (fst (checkAlertsForPrice healthy 10 (btc_snapshot 150) two_alerts))
       = [Persisted [''a1''] 10, Announced (toApiAlert alert1) (btc_snapshot 150)]
   \<and> priceAlerts (fst (checkAlertsForPrice healthy 10 (btc_snapshot 150) two_alerts))
       = [alert1\<lparr>isTriggered := True, triggeredAt := Some 10\<rparr>, alert2]
   \<and> alerts_to_trigger (eth_snapshot 20) (priceAlerts two_alerts) = [alert2]
   \<and> updateFails eth_update_fails [''a2'']
   \<and> checkAlertsForPrice eth_update_fails 20 (eth_snapshot 20) two_alerts
       = (two_alerts, Inl DbError)
   \<and> alerts_to_trigger (btc_snapshot 50) (priceAlerts two_alerts) = []
   \<and> checkAlertsForPrice healthy 10 (btc_snapshot 50) two_alerts = (two_alerts, Inr [])"
proof -
  have t1: "alerts_to_trigger (btc_snapshot 150) (priceAlerts two_alerts) = [alert1]"
    and t2: "alerts_to_trigger (eth_snapshot 20) (priceAlerts two_alerts) = [alert2]"
    and t3: "alerts_to_trigger (btc_snapshot 50) (priceAlerts two_alerts) = []"
    by (simp_all add: alerts_to_trigger_def select_active_def shouldTrigger_def
         demo_alert_defs fl_100 fl_10)
  have f: "\<not> selectFails healthy (symbol (btc_snapshot 150))"
    "\<not> updateFails healthy (map alertId [alert1])"
    "\<not> selectFails eth_update_fails (symbol (eth_snapshot 20))"
    "updateFails eth_update_fails (map alertId [alert2])"
    "\<not> selectFails healthy (symbol (btc_snapshot 50))"
    by (simp_all add: healthy_def eth_update_fails_def alert2_def)
  have m: "mark_triggered (map alertId [alert1]) 10 (priceAlerts two_alerts)
             = [alert1\<lparr>isTriggered := True, triggeredAt := Some 10\<rparr>, alert2]"
    by (simp add: mark_triggered_def demo_alert_defs)
  have e: "events two_alerts = []" "alertId alert1 = ''a1''" "alertId alert2 = ''a2''"
    by (simp_all add: two_alerts_def alert1_def alert2_def)
  have ok: "events (fst (checkAlertsForPrice healthy 10 (btc_snapshot 150) two_alerts))
       = [Persisted [''a1''] 10, Announced (toApiAlert alert1) (btc_snapshot 150)]
     \<and> priceAlerts (fst (checkAlertsForPrice healthy 10 (btc_snapshot 150) two_alerts))
       = [alert1\<lparr>isTriggered := True, triggeredAt := Some 10\<rparr>, alert2]"
    using snapshot_batch[of healthy "btc_snapshot 150" two_alerts 10 "[]"] f(1,2) m
    by (simp add: t1 e)
  have failed: "checkAlertsForPrice eth_update_fails 20 (eth_snapshot 20) two_alerts
       = (two_alerts, Inl DbError)"
    using snapshot_batch[of eth_update_fails "eth_snapshot 20" two_alerts 20 "[]"] f(3,4)
    by (simp add: t2 prod_eq_iff)
  have none: "checkAlertsForPrice healthy 10 (btc_snapshot 50) two_alerts = (two_alerts, Inr [])"
    using snapshot_batch[of healthy "btc_snapshot 50" two_alerts 10 "[]"] f(5)
    by (simp add: t3 prod_eq_iff)
  from ok failed none t1 t2 t3 f(4) show ?thesis by (simp add: e)
qed

section \<open>Rows that no pass can trigger\<close>

lemma inert_not_in_ids:
  assumes "distinct (map alertId rows)" and "a \<in> set rows"
    and "isTriggered a \<or> \<not> shouldTrigger a p"
  shows "alertId a \<notin> set (map alertId (alerts_to_trigger p rows))"
proof
  assume "alertId a \<in> set (map alertId (alerts_to_trigger p rows))"
  then obtain a' where a': "a' \<in> set (alerts_to_trigger p rows)" "alertId a' = alertId a"
    by auto
  from a'(1) have p: "a' \<in> set rows" "\<not> isTriggered a'" "shouldTrigger a' p"
    using alerts_to_trigger_props by blast+
  from assms(1,2) p(1) a'(2) have "a = a'" using distinct_ids_eq by metis
  with p(2,3) assms(3) show False by blast
qed

lemma mentioned_ids_append [simp]:
  "mentioned_ids (xs @ ys) = mentioned_ids xs \<union> mentioned_ids ys"
  by (simp add: mentioned_ids_def)

lemma mentioned_ids_Nil [simp]: "mentioned_ids [] = {}"
  by (simp add: mentioned_ids_def)

lemma mentioned_ids_batch:
  "mentioned_ids (Persisted (map alertId T) now
                  # map (\<lambda>alert. Announced alert p) (map toApiAlert T))
     = alertId ` set T"
  by (induction T) (auto simp: mentioned_ids_def toApiAlert_def)

lemma inert_row_step:
  assumes d: "distinct (map alertId (priceAlerts st))" and m: "a \<in> set (priceAlerts st)"
    and i: "isTriggered a \<or> \<not> shouldTrigger a p"
    and r: "checkAlertsForPrice faults now p st = (st', res)"
  shows "a \<in> set (priceAlerts st')"
    and "map alertId (priceAlerts st') = map alertId (priceAlerts st)"
    and "\<exists>new. events st' = events st @ new \<and> alertId a \<notin> mentioned_ids new"
    and "\<And>l. res = Inr l \<Longrightarrow> alertId a \<notin> api_id ` set l"
proof -
  let ?T = "alerts_to_trigger p (priceAlerts st)"
  have n: "alertId a \<notin> set (map alertId ?T)" using inert_not_in_ids[OF d m i] .
  have api: "api_id ` set (map toApiAlert ?T) = alertId ` set ?T"
    by (auto simp: toApiAlert_def image_iff)
  consider (fail) "st' = st" "res = Inl DbError"
    | (none) "st' = st" "res = Inr (map toApiAlert ?T)"
    | (ok) "st' = st\<lparr>priceAlerts := mark_triggered (map alertId ?T) now (priceAlerts st),
                     events := events st @ [Persisted (map alertId ?T) now]
                               @ map (\<lambda>alert. Announced alert p) (map toApiAlert ?T)\<rparr>"
           "res = Inr (map toApiAlert ?T)"
    using r by (auto simp: checkAlertsForPrice_def Let_def split: if_splits)
  then have "a \<in> set (priceAlerts st')
      \<and> map alertId (priceAlerts st') = map alertId (priceAlerts st)
      \<and> (\<exists>new. events st' = events st @ new \<and> alertId a \<notin> mentioned_ids new)
      \<and> (\<forall>l. res = Inr l \<longrightarrow> alertId a \<notin> api_id ` set l)"
  proof cases
    case fail
    then show ?thesis using m by simp
  next
    case none
    then show ?thesis using m n api by auto
  next
    case ok
    have "alertId a \<notin> mentioned_ids (Persisted (map alertId ?T) now
             # map (\<lambda>alert. Announced alert p) (map toApiAlert ?T))"
      unfolding mentioned_ids_batch using n by simp
    then have "\<exists>new. events st' = events st @ new \<and> alertId a \<notin> mentioned_ids new"
      using ok(1) by auto
    then show ?thesis
      using ok m n api mark_triggered_keeps[of a "priceAlerts st" "map alertId ?T" now] by auto
  qed
  then show "a \<in> set (priceAlerts st')"
    and "map alertId (priceAlerts st') = map alertId (priceAlerts st)"
    and "\<exists>new. events st' = events st @ new \<and> alertId a \<notin> mentioned_ids new"
    and "\<And>l. res = Inr l \<Longrightarrow> alertId a \<notin> api_id ` set l"
    by blast+
qed

lemma inert_row_pass:
  assumes "distinct (map alertId (priceAlerts st))" and "a \<in> set (priceAlerts st)"
    and "isTriggered a \<or> (\<forall>p. \<not> shouldTrigger a p)"
    and "checkAllAlerts faults snaps st = (st', res)"
  shows "a \<in> set (priceAlerts st')
     \<and> map alertId (priceAlerts st') = map alertId (priceAlerts st)
     \<and> (\<exists>new. events st' = events st @ new \<and> alertId a \<notin> mentioned_ids new)
     \<and> (\<forall>l. res = Inr l \<longrightarrow> alertId a \<notin> api_id ` set l)"
  using assms
proof (induction snaps arbitrary: st st' res)
  case Nil
  then show ?case by auto
next
  case (Cons snap snaps)
  obtain now p where snap: "snap = (now, p)" by (cases snap)
  obtain st1 r1 where s1: "checkAlertsForPrice faults now p st = (st1, r1)"
    by (cases "checkAlertsForPrice faults now p st")
  have i: "isTriggered a \<or> \<not> shouldTrigger a p" using Cons.prems(3) by blast
  note step = inert_row_step[OF Cons.prems(1,2) i s1]
  show ?case
  proof (cases r1)
    case (Inl e)
    then have "st' = st1" "res = Inl e" using Cons.prems(4) snap s1 by auto
    then show ?thesis using step by auto
  next
    case (Inr triggered)
    obtain st2 r2 where s2: "checkAllAlerts faults snaps st1 = (st2, r2)"
      by (cases "checkAllAlerts faults snaps st1")
    have d1: "distinct (map alertId (priceAlerts st1))" using step(2) Cons.prems(1) by simp
    have ih: "a \<in> set (priceAlerts st2)
        \<and> map alertId (priceAlerts st2) = map alertId (priceAlerts st1)
        \<and> (\<exists>new. events st2 = events st1 @ new \<and> alertId a \<notin> mentioned_ids new)
        \<and> (\<forall>l. r2 = Inr l \<longrightarrow> alertId a \<notin> api_id ` set l)"
      using Cons.IH[OF d1 step(1) Cons.prems(3) s2] .
    have st': "st' = st2" using Cons.prems(4) snap s1 s2 Inr by (auto split: sum.splits)
    have res: "\<And>l. res = Inr l \<Longrightarrow> \<exists>l2. r2 = Inr l2 \<and> l = triggered @ l2"
      using Cons.prems(4) snap s1 s2 Inr by (auto split: sum.splits)
    from step(3) obtain n1 where n1: "events st1 = events st @ n1" "alertId a \<notin> mentioned_ids n1"
      by blast
    from ih obtain n2 where n2: "events st2 = events st1 @ n2" "alertId a \<notin> mentioned_ids n2"
      by blast
    have ev: "\<exists>new. events st' = events st @ new \<and> alertId a \<notin> mentioned_ids new"
      using n1 n2 st' by (intro exI[of _ "n1 @ n2"]) simp
    have "\<forall>l. res = Inr l \<longrightarrow> alertId a \<notin> api_id ` set l"
    proof (intro allI impI)
      fix l assume "res = Inr l"
      then obtain l2 where "r2 = Inr l2" "l = triggered @ l2" using res by blast
      then show "alertId a \<notin> api_id ` set l"
        using step(4)[OF Inr] ih by auto
    qed
    then show ?thesis using ih step(2) st' ev by auto
  qed
qed

lemma triggered_state_rows: "priceAlerts triggered_state = [alert1_triggered, alert2]"
  by (simp add: triggered_state_def alert1_triggered_def alert_eval_defs healthy_def
      two_alerts_def alert1_def alert2_def)

text \<open>
  C4. In a table whose ids are distinct (the primary key), an alert that is marked
  triggered is not touched by any later evaluation pass, whatever the snapshots and
  whether or not the database fails: the row is still in the table as it was, no update
  and no announcement made by the pass mentions its id, and the pass does not return it.
\<close>

theorem triggered_alert_untouched:
  assumes "distinct (map alertId (priceAlerts st))" and "a \<in> set (priceAlerts st)"
    and "isTriggered a"
  shows "a \<in> set (priceAlerts (fst (checkAllAlerts faults snaps st)))
     \<and> distinct (map alertId (priceAlerts (fst (checkAllAlerts faults snaps st))))
     \<and> (\<exists>new. events (fst (checkAllAlerts faults snaps st)) = events st @ new
              \<and> alertId a \<notin> mentioned_ids new)
     \<and> (\<forall>l. snd (checkAllAlerts faults snaps st) = Inr l \<longrightarrow> alertId a \<notin> api_id ` set l)"
proof -
  obtain st' res where r: "checkAllAlerts faults snaps st = (st', res)"
    by (cases "checkAllAlerts faults snaps st")
  have "isTriggered a \<or> (\<forall>p. \<not> shouldTrigger a p)" using assms(3) by simp
  from inert_row_pass[OF assms(1,2) this r] assms(1) show ?thesis
    by (simp add: r)
qed

theorem triggered_alert_untouched_witness:
  "distinct (map alertId (priceAlerts triggered_state))
   \<and> alert1_triggered \<in> set (priceAlerts triggered_state)
   \<and> isTriggered alert1_triggered
   \<and> alert1_triggered
       \<in> set (priceAlerts (fst (checkAllAlerts healthy [(30, btc_snapshot 200)] triggered_state)))
   \<and> (\<exists>new. events (fst (checkAllAlerts healthy [(30, btc_snapshot 200)] triggered_state))
               = events triggered_state @ new \<and> alertId alert1_triggered \<notin> mentioned_ids new)
   \<and> snd (checkAllAlerts healthy [(30, btc_snapshot 200)] triggered_state) = Inr []"
proof -
  have d: "distinct (map alertId (priceAlerts triggered_state))"
    by (simp add: triggered_state_rows alert1_triggered_def alert1_def alert2_def)
  have m: "alert1_triggered \<in> set (priceAlerts triggered_state)"
    by (simp add: triggered_state_rows)
  have t: "isTriggered alert1_triggered" by (simp add: alert1_triggered_def)
  have r: "snd (checkAllAlerts healthy [(30, btc_snapshot 200)] triggered_state) = Inr []"
    by (simp add: alert_eval_defs healthy_def triggered_state_rows alert1_triggered_def
        alert1_def alert2_def)
  from triggered_alert_untouched[OF d m t, of healthy "[(30, btc_snapshot 200)]"] d m t r
  show ?thesis by blast
qed

text \<open>
  C10. A \<open>percent_change\<close> alert created while the price source has no price for the
  symbol is created (the insert succeeding: the database accepts it and the numbers of
  the request fit their columns) with a null base price. No snapshot selects it for
  triggering, and, the ids of the table being distinct and the new id fresh, after any
  evaluation pass the row is still in the table as created (active, not triggered), no
  update or announcement of the pass mentions it, and the pass does not return it.
\<close>

theorem null_base_never_triggers:
  fixes st :: alert_state and newId uid s :: string and tp pc tp' pc' :: "real option"
    and now :: int and faults faults' :: db_faults and numberToString :: "real \<Rightarrow> real"
  assumes "distinct (map alertId (priceAlerts st))"
    and "newId \<notin> alertId ` set (priceAlerts st)"
    and "\<not> insertFails faults"
    and "numeric_column numberToString 20 8 tp = Some tp'"
    and "numeric_column numberToString 10 4 pc = Some pc'"
  defines "row \<equiv> \<lparr>alertId = newId, userId = uid, alertSymbol = toUpperCase s,
                   condition = percent_change, targetPrice = tp', percentChange = pc',
                   basePrice = None, isTriggered = False, isActive = True, createdAt = now,
                   triggeredAt = None\<rparr>"
  defines "st1 \<equiv> fst (createAlert faults numberToString (Inr None) newId now uid s
                        percent_change tp pc st)"
  shows "snd (createAlert faults numberToString (Inr None) newId now uid s percent_change tp pc st)
           = Inr (toApiAlert row)
     \<and> priceAlerts st1 = priceAlerts st @ [row]
     \<and> (\<forall>p. row \<notin> set (alerts_to_trigger p (priceAlerts st1)))
     \<and> row \<in> set (priceAlerts (fst (checkAllAlerts faults' snaps st1)))
     \<and> (\<exists>new. events (fst (checkAllAlerts faults' snaps st1)) = events st1 @ new
              \<and> newId \<notin> mentioned_ids new)
     \<and> (\<forall>l. snd (checkAllAlerts faults' snaps st1) = Inr l \<longrightarrow> newId \<notin> api_id ` set l)"
proof -
  have b: "numeric_column numberToString 20 8 None = Some None"
    by (simp add: numeric_column_def)
  have c: "createAlert faults numberToString (Inr None) newId now uid s percent_change tp pc st
             = (st\<lparr>priceAlerts := priceAlerts st @ [row]\<rparr>, Inr (toApiAlert row))"
    using assms(3) by (simp add: createAlert_def row_def Let_def assms(4,5) b)
  then have rows: "priceAlerts st1 = priceAlerts st @ [row]" by (simp add: st1_def)
  have nf: "\<forall>p. \<not> shouldTrigger row p" by (simp add: shouldTrigger_def row_def)
  then have nt: "\<forall>p. row \<notin> set (alerts_to_trigger p (priceAlerts st1))"
    by (simp add: alerts_to_trigger_def)
  have d: "distinct (map alertId (priceAlerts st1))"
    using assms(1,2) by (simp add: rows row_def)
  have m: "row \<in> set (priceAlerts st1)" by (simp add: rows)
  obtain st' res where r: "checkAllAlerts faults' snaps st1 = (st', res)"
    by (cases "checkAllAlerts faults' snaps st1")
  have "isTriggered row \<or> (\<forall>p. \<not> shouldTrigger row p)" using nf by simp
  from inert_row_pass[OF d m this r] have
    "row \<in> set (priceAlerts st')
     \<and> (\<exists>new. events st' = events st1 @ new \<and> alertId row \<notin> mentioned_ids new)
     \<and> (\<forall>l. res = Inr l \<longrightarrow> alertId row \<notin> api_id ` set l)" by blast
  moreover have "alertId row = newId" by (simp add: row_def)
  ultimately show ?thesis using c rows nt by (simp add: r)
qed

theorem null_base_never_triggers_witness:
  "distinct (map alertId (priceAlerts two_alerts))
   \<and> ''a9'' \<notin> alertId ` set (priceAlerts two_alerts)
   \<and> numeric_column integer_toString 20 8 None = Some None
   \<and> numeric_column integer_toString 10 4 (Some 10) = Some (Some 10)
   \<and> snd (createAlert healthy integer_toString (Inr None) ''a9'' 5 ''u2'' ''btc'' percent_change
            None (Some 10) two_alerts) = Inr (toApiAlert null_base_row)
   \<and> basePrice null_base_row = None
   \<and> null_base_row \<in> set (priceAlerts (fst (checkAllAlerts healthy
        [(10, btc_snapshot 1000000), (20, btc_snapshot 1)]
        (fst (createAlert healthy integer_toString (Inr None) ''a9'' 5 ''u2'' ''btc''
               percent_change None (Some 10) two_alerts)))))"
proof -
  have d: "distinct (map alertId (priceAlerts two_alerts))"
    and n: "''a9'' \<notin> alertId ` set (priceAlerts two_alerts)"
    and i: "\<not> insertFails healthy"
    by (simp_all add: two_alerts_def alert1_def alert2_def healthy_def)
  have k: "numeric_column integer_toString 20 8 None = Some None"
    "numeric_column integer_toString 10 4 (Some 10) = Some (Some 10)"
    by (simp_all add: numeric_column_def pg_numeric_def pg_round_def integer_toString_def)
  have r: "\<lparr>alertId = ''a9'', userId = ''u2'', alertSymbol = toUpperCase ''btc'',
             condition = percent_change, targetPrice = None, percentChange = Some 10,
             basePrice = None, isTriggered = False, isActive = True, createdAt = 5,
             triggeredAt = None\<rparr> = null_base_row"
    by (simp add: null_base_row_def toUpperCase_def upper_char_def)
  have b: "basePrice null_base_row = None" by (simp add: null_base_row_def)
  from null_base_never_triggers[OF d n i k, where uid="''u2''" and s="''btc''" and now=5
      and faults'=healthy and snaps="[(10, btc_snapshot 1000000), (20, btc_snapshot 1)]"]
  have "snd (createAlert healthy integer_toString (Inr None) ''a9'' 5 ''u2'' ''btc''
            percent_change None (Some 10) two_alerts) = Inr (toApiAlert null_base_row)
     \<and> null_base_row \<in> set (priceAlerts (fst (checkAllAlerts healthy
        [(10, btc_snapshot 1000000), (20, btc_snapshot 1)]
        (fst (createAlert healthy integer_toString (Inr None) ''a9'' 5 ''u2'' ''btc''
               percent_change None (Some 10) two_alerts)))))"
    unfolding r by blast
  with d n k b show ?thesis by blast
qed

section \<open>Creation of alerts\<close>

lemmas post_eval_defs =
  postAlert_def CreateAlertSchema_def parse_condition_def isSymbolSupported_def
  getSupportedSymbols_def toUpperCase_def upper_char_def getAlertCount_def getMaxAlerts_def
  createAlert_def numeric_column_def pg_numeric_def pg_round_def integer_toString_def
  toApiAlert_def healthy_def Let_def

text \<open>
  C8, as the claim states it, fails: a body with condition \<open>above\<close>, a target price and
  a percent-change threshold is accepted, and the stored row has both fields set.
\<close>

theorem exactly_one_field_counterexample:
  "map condition (priceAlerts (fst (postAlert healthy integer_toString (Inr None) ''a9'' 0
        (Some (''u1'', ''free'')) both_fields_body no_alerts))) = [above]
   \<and> map targetPrice (priceAlerts (fst (postAlert healthy integer_toString (Inr None) ''a9'' 0
        (Some (''u1'', ''free'')) both_fields_body no_alerts))) = [Some 100]
   \<and> map percentChange (priceAlerts (fst (postAlert healthy integer_toString (Inr None) ''a9'' 0
        (Some (''u1'', ''free'')) both_fields_body no_alerts))) = [Some 5]"
  by (simp add: post_eval_defs both_fields_body_def no_alerts_def)

lemma CreateAlertSchema_fields:
  assumes "CreateAlertSchema b = Some body"
  shows "parse_condition (body_condition b) = Some (ca_condition body)"
    and "ca_targetPrice body = body_targetPrice b"
    and "ca_percentChange body = body_percentChange b"
    and "if ca_condition body = percent_change then body_percentChange b \<noteq> None
         else body_targetPrice b \<noteq> None"
  using assms
  by (auto simp: CreateAlertSchema_def split: if_splits option.splits)

lemma numeric_column_set:
  "numeric_column numberToString precision scale v = Some stored \<Longrightarrow>
   (stored = None \<longleftrightarrow> v = None)"
  by (cases v; cases "pg_numeric precision scale (numberToString (the v))")
     (auto simp: numeric_column_def)

lemma createAlert_cases:
  "(\<exists>row. numeric_column numberToString 20 8 tp = Some (targetPrice row)
         \<and> numeric_column numberToString 10 4 pc = Some (percentChange row)
         \<and> condition row = cond
         \<and> createAlert faults numberToString cp newId now uid s cond tp pc st
             = (st\<lparr>priceAlerts := priceAlerts st @ [row]\<rparr>, Inr (toApiAlert row)))
   \<or> (\<exists>e. createAlert faults numberToString cp newId now uid s cond tp pc st = (st, Inl e))"
proof (cases "\<exists>e. createAlert faults numberToString cp newId now uid s cond tp pc st = (st, Inl e)")
  case True
  then show ?thesis by blast
next
  case False
  then obtain q storedTarget storedPercent storedBase where
    cp: "cp = Inr q"
    and t: "numeric_column numberToString 20 8 tp = Some storedTarget"
    and c: "numeric_column numberToString 10 4 pc = Some storedPercent"
    and b: "numeric_column numberToString 20 8 (case q of None \<Rightarrow> None | Some x \<Rightarrow> Some (price x))
              = Some storedBase"
    and i: "\<not> insertFails faults"
    by (auto simp: createAlert_def Let_def split: sum.splits option.splits if_splits)
  let ?row = "\<lparr>alertId = newId, userId = uid, alertSymbol = toUpperCase s,
               condition = cond, targetPrice = storedTarget,
               percentChange = storedPercent, basePrice = storedBase,
               isTriggered = False, isActive = True, createdAt = now,
               triggeredAt = None\<rparr>"
  have "createAlert faults numberToString cp newId now uid s cond tp pc st
          = (st\<lparr>priceAlerts := priceAlerts st @ [?row]\<rparr>, Inr (toApiAlert ?row))"
    using cp t c b i by (simp add: createAlert_def Let_def)
  moreover have "numeric_column numberToString 20 8 tp = Some (targetPrice ?row)"
    "numeric_column numberToString 10 4 pc = Some (percentChange ?row)"
    "condition ?row = cond"
    using t c by simp_all
  ultimately show ?thesis by blast
qed

lemma postAlert_cases:
  "(\<exists>body row. CreateAlertSchema b = Some body
       \<and> numeric_column numberToString 20 8 (ca_targetPrice body) = Some (targetPrice row)
       \<and> numeric_column numberToString 10 4 (ca_percentChange body) = Some (percentChange row)
       \<and> condition row = ca_condition body
       \<and> postAlert faults numberToString cp newId now user b st
           = (st\<lparr>priceAlerts := priceAlerts st @ [row]\<rparr>, Created (toApiAlert row)))
   \<or> (fst (postAlert faults numberToString cp newId now user b st) = st
       \<and> (\<forall>alert. snd (postAlert faults numberToString cp newId now user b st) \<noteq> Created alert))"
proof (cases "\<exists>uid tier body. user = Some (uid, tier) \<and> CreateAlertSchema b = Some body
                \<and> isSymbolSupported (ca_symbol body) \<and> \<not> countFails faults
                \<and> \<not> getAlertCount uid st \<ge> getMaxAlerts tier")
  case False
  then have "fst (postAlert faults numberToString cp newId now user b st) = st
       \<and> (\<forall>alert. snd (postAlert faults numberToString cp newId now user b st) \<noteq> Created alert)"
    by (auto simp: postAlert_def split: option.splits prod.splits)
  then show ?thesis by blast
next
  case True
  then obtain uid tier body where u: "user = Some (uid, tier)"
    and s: "CreateAlertSchema b = Some body"
    and g: "isSymbolSupported (ca_symbol body)" "\<not> countFails faults"
      "\<not> getAlertCount uid st \<ge> getMaxAlerts tier"
    by blast
  have p: "postAlert faults numberToString cp newId now user b st
      = (case createAlert faults numberToString cp newId now uid (ca_symbol body)
                (ca_condition body) (ca_targetPrice body) (ca_percentChange body) st of
           (st1, Inl _) \<Rightarrow> (st1, InternalError)
         | (st1, Inr alert) \<Rightarrow> (st1, Created alert))"
    using u s g by (simp add: postAlert_def)
  from createAlert_cases[of numberToString "ca_targetPrice body" "ca_percentChange body"
      "ca_condition body" faults cp newId now uid "ca_symbol body" st]
  show ?thesis
  proof (elim disjE exE conjE)
    fix row
    assume "numeric_column numberToString 20 8 (ca_targetPrice body) = Some (targetPrice row)"
      and "numeric_column numberToString 10 4 (ca_percentChange body) = Some (percentChange row)"
      and "condition row = ca_condition body"
      and "createAlert faults numberToString cp newId now uid (ca_symbol body)
             (ca_condition body) (ca_targetPrice body) (ca_percentChange body) st
             = (st\<lparr>priceAlerts := priceAlerts st @ [row]\<rparr>, Inr (toApiAlert row))"
    then show ?thesis using s by (auto simp: p)
  next
    fix e
    assume "createAlert faults numberToString cp newId now uid (ca_symbol body)
             (ca_condition body) (ca_targetPrice body) (ca_percentChange body) st = (st, Inl e)"
    then show ?thesis by (simp add: p)
  qed
qed

text \<open>
  The columns round: a target price that the schema accepts (it is positive) and that
  prints as less than half of \<open>0.00000001\<close> is stored as \<open>0\<close>.
\<close>

lemma small_target_stored_zero:
  assumes "0 \<le> numberToString x" and "numberToString x < 5 / 10 ^ 9"
  shows "numeric_column numberToString 20 8 (Some x) = Some (Some 0)"
proof -
  have "numberToString x * 10 ^ 8 + 1 / 2 < 1" using assms(2) by simp
  moreover have "0 \<le> numberToString x * 10 ^ 8 + 1 / 2" using assms(1) by simp
  ultimately have "\<lfloor>numberToString x * 10 ^ 8 + 1 / 2\<rfloor> = 0" by linarith
  then show ?thesis
    using assms(1) by (simp add: numeric_column_def pg_numeric_def pg_round_def)
qed

text \<open>
  C8, amended. Every alert the creation route accepts is stored with the condition of
  the request and with both numbers of the request, each as its column rounds it (the
  target price to 8 decimal places, the threshold to 4): a number the request gave is
  stored, one it did not give is null. So the field that the condition needs is set: an
  \<open>above\<close> or \<open>below\<close> alert has a target price, a \<open>percent_change\<close> alert has a
  percent-change threshold; the other field is set too when the request gave it. If
  every row of the table has the field of its condition, so has every row after a
  request to the route.
\<close>

theorem accepted_alert_field:
  "(\<forall>alert. snd (postAlert faults numberToString cp newId now user b st) = Created alert \<longrightarrow>
      (\<exists>row. priceAlerts (fst (postAlert faults numberToString cp newId now user b st))
               = priceAlerts st @ [row]
            \<and> alert = toApiAlert row
            \<and> parse_condition (body_condition b) = Some (condition row)
            \<and> numeric_column numberToString 20 8 (body_targetPrice b) = Some (targetPrice row)
            \<and> numeric_column numberToString 10 4 (body_percentChange b)
                = Some (percentChange row)
            \<and> (targetPrice row = None \<longleftrightarrow> body_targetPrice b = None)
            \<and> (percentChange row = None \<longleftrightarrow> body_percentChange b = None)
            \<and> condition_field_set row))
   \<and> (list_all condition_field_set (priceAlerts st) \<longrightarrow>
        list_all condition_field_set
          (priceAlerts (fst (postAlert faults numberToString cp newId now user b st))))"
  using postAlert_cases[of b numberToString faults cp newId now user st]
proof (elim disjE exE conjE)
  fix body row
  assume s: "CreateAlertSchema b = Some body"
    and t: "numeric_column numberToString 20 8 (ca_targetPrice body) = Some (targetPrice row)"
    and c: "numeric_column numberToString 10 4 (ca_percentChange body) = Some (percentChange row)"
    and k: "condition row = ca_condition body"
    and p: "postAlert faults numberToString cp newId now user b st
           = (st\<lparr>priceAlerts := priceAlerts st @ [row]\<rparr>, Created (toApiAlert row))"
  note f = CreateAlertSchema_fields[OF s]
  have t': "numeric_column numberToString 20 8 (body_targetPrice b) = Some (targetPrice row)"
    using t f(2) by simp
  have c': "numeric_column numberToString 10 4 (body_percentChange b) = Some (percentChange row)"
    using c f(3) by simp
  have tn: "targetPrice row = None \<longleftrightarrow> body_targetPrice b = None"
    using numeric_column_set[OF t'] .
  have cn: "percentChange row = None \<longleftrightarrow> body_percentChange b = None"
    using numeric_column_set[OF c'] .
  have "condition_field_set row"
    using f(4) tn cn by (simp add: condition_field_set_def k)
  then show ?thesis using f(1) t' c' tn cn k by (simp add: p)
next
  assume "fst (postAlert faults numberToString cp newId now user b st) = st"
    and "\<forall>alert. snd (postAlert faults numberToString cp newId now user b st) \<noteq> Created alert"
  then show ?thesis by simp
qed

theorem accepted_alert_field_witness:
  "snd (postAlert healthy integer_toString (Inr (Some (eth_snapshot 2000))) ''a9'' 5
          (Some (''u2'', ''pro'')) percent_body two_alerts) = Created (toApiAlert percent_row)
   \<and> list_all condition_field_set (priceAlerts two_alerts)
   \<and> priceAlerts (fst (postAlert healthy integer_toString (Inr (Some (eth_snapshot 2000))) ''a9'' 5
          (Some (''u2'', ''pro'')) percent_body two_alerts)) = priceAlerts two_alerts @ [percent_row]
   \<and> parse_condition (body_condition percent_body) = Some (condition percent_row)
   \<and> numeric_column integer_toString 20 8 (body_targetPrice percent_body)
       = Some (targetPrice percent_row)
   \<and> numeric_column integer_toString 10 4 (body_percentChange percent_body)
       = Some (percentChange percent_row)
   \<and> condition_field_set percent_row
   \<and> list_all condition_field_set (priceAlerts (fst (postAlert healthy integer_toString
          (Inr (Some (eth_snapshot 2000))) ''a9'' 5 (Some (''u2'', ''pro'')) percent_body
          two_alerts)))"
proof -
  have c: "postAlert healthy integer_toString (Inr (Some (eth_snapshot 2000))) ''a9'' 5
          (Some (''u2'', ''pro'')) percent_body two_alerts
        = (two_alerts\<lparr>priceAlerts := priceAlerts two_alerts @ [percent_row]\<rparr>,
           Created (toApiAlert percent_row))"
    by (simp add: post_eval_defs percent_body_def percent_row_def two_alerts_def alert1_def
        alert2_def eth_snapshot_def)
  have l: "list_all condition_field_set (priceAlerts two_alerts)"
    by (simp add: condition_field_set_def two_alerts_def alert1_def alert2_def)
  from accepted_alert_field[of healthy integer_toString "Inr (Some (eth_snapshot 2000))" "''a9''" 5
      "Some (''u2'', ''pro'')" percent_body two_alerts] c l
  show ?thesis by simp
qed

section \<open>Rate limiter\<close>

lemmas rate_limit_defs =
  checkRateLimit_def no_faults_def empty_store_def no_key_def expire_due_def
  zremrangebyscore_def zcard_def zadd_def pexpire_def drop_if_empty_def Let_def

text \<open>
  C5. With limit 5 and a window of 60000 ms, seven calls for one identifier in the same
  millisecond: the first five are allowed and recorded, the sixth is rejected, and the
  rejected call removes every entry whose score is its own timestamp, the five recorded
  calls included, so that the window is empty afterwards and the seventh call is allowed.
\<close>

theorem rejected_call_clears_same_ms:
  "map allowed (snd (rate_limit_calls ''ip:1'' 5 60000
       (five_calls @ [(1000, 6), (1000, 7)]) empty_store))
     = [True, True, True, True, True, False, True]
   \<and> zcard ''ratelimit:ip:1'' (fst (rate_limit_calls ''ip:1'' 5 60000 five_calls empty_store)) = 5
   \<and> zcard ''ratelimit:ip:1''
        (fst (rate_limit_calls ''ip:1'' 5 60000 (five_calls @ [(1000, 6)]) empty_store)) = 0"
  by (simp add: five_calls_def rate_limit_defs)

text \<open>
  C9. When no store is configured, when the pipeline rejects or resolves with nothing,
  or when the store rejects the removal that follows a full window, \<open>checkRateLimit\<close>
  answers \<open>allowed\<close>, for every identifier, limit, window, time and store content.
\<close>

theorem store_failure_fails_open:
  assumes "redis = None \<or> exec faults = ExecThrows \<or> exec faults = ExecNull
           \<or> removeThrows faults"
  shows "allowed (snd (checkRateLimit redis faults now rnd identifier limit windowMs))"
  using assms
  by (auto simp: checkRateLimit_def Let_def split: option.splits exec_outcome.splits)

theorem store_failure_fails_open_witness:
  "removeThrows remove_rejects
   \<and> zcard ''ratelimit:ip:1'' full_window = 5
   \<and> allowed (snd (checkRateLimit (Some full_window) remove_rejects 1000 6 ''ip:1'' 5 60000))
   \<and> allowed (snd (checkRateLimit None no_faults 1000 6 ''ip:1'' 5 60000))"
proof -
  have r: "removeThrows remove_rejects" by (simp add: remove_rejects_def)
  have z: "zcard ''ratelimit:ip:1'' full_window = 5"
    by (simp add: full_window_def five_calls_def rate_limit_defs)
  from store_failure_fails_open[of "Some full_window" remove_rejects 1000 6 "''ip:1''" 5 60000]
    store_failure_fails_open[of None no_faults 1000 6 "''ip:1''" 5 60000] r z
  show ?thesis by simp
qed

end
